theory Spec2Isabelle
  imports Complex_Main "HOL-Library.AList"
begin

section \<open>The Node Store: SenseAtom and RelationalGraph (memory/structures/SenseAtom.ts)\<close>

text \<open>
  Conventions of the embedding.
  \<^item> A JavaScript \<open>number\<close> that carries a weight, a rate or a strength is a \<open>real\<close>:
    the finite doubles, without rounding. Timestamps (\<open>Date.now()\<close>, milliseconds) are
    \<open>int\<close>, counters are \<open>nat\<close>.
  \<^item> \<open>Date.now()\<close> is the parameter \<open>now\<close> of every operation that reads the clock; the
    reads one call makes are taken in the same millisecond.
  \<^item> A JavaScript \<open>Map\<close> keeps its keys in insertion order: it is an association list,
    \<open>get\<close> is \<open>map_of\<close>, \<open>set\<close> replaces the value in place or appends a new key
    (\<open>AList.update\<close>), \<open>delete\<close> drops the key (\<open>AList.delete\<close>). A \<open>Set\<close> is the
    list of its members in insertion order.
  \<^item> An object held in a \<open>Map\<close> is mutated in place: the model rewrites the entry
    under its key (\<open>AList.map_entry\<close>), so two names for one object cannot drift apart.
  \<^item> An optional field (\<open>x?: T\<close>) is a \<open>T option\<close>, \<open>None\<close> for \<open>undefined\<close>.
  \<^item> \<open>console.log\<close> lines are not modelled.
\<close>

subsection \<open>Map and Set of the runtime\<close>

definition Map_get :: "('k \<times> 'v) list \<Rightarrow> 'k \<Rightarrow> 'v option" where
  "Map_get m k = map_of m k"

definition Map_has :: "('k \<times> 'v) list \<Rightarrow> 'k \<Rightarrow> bool" where
  "Map_has m k = (map_of m k \<noteq> None)"

definition Map_set :: "('k \<times> 'v) list \<Rightarrow> 'k \<Rightarrow> 'v \<Rightarrow> ('k \<times> 'v) list" where
  "Map_set m k v = AList.update k v m"

definition Map_delete :: "('k \<times> 'v) list \<Rightarrow> 'k \<Rightarrow> ('k \<times> 'v) list" where
  "Map_delete m k = AList.delete k m"

text \<open>\<open>new Map(entries)\<close>: the entries are set one after the other.\<close>

definition new_Map :: "('k \<times> 'v) list \<Rightarrow> ('k \<times> 'v) list" where
  "new_Map entries = foldl (\<lambda>m (k, v). Map_set m k v) [] entries"

definition Set_add :: "'a list \<Rightarrow> 'a \<Rightarrow> 'a list" where
  "Set_add s x = (if x \<in> set s then s else s @ [x])"

definition Set_delete :: "'a list \<Rightarrow> 'a \<Rightarrow> 'a list" where
  "Set_delete s x = filter (\<lambda>y. y \<noteq> x) s"

definition new_Set :: "'a list \<Rightarrow> 'a list" where
  "new_Set xs = foldl Set_add [] xs"

subsection \<open>SenseAtom\<close>

datatype ConnectionType = SEMANTIC | TEMPORAL | CAUSAL | EMOTIONAL | ASSOCIATIVE | HIERARCHICAL

datatype AmygdalaLevel = MINIMAL | LOW | MEDIUM | HIGH | EXTREME

record ConnectionStrength =
  strength :: real
  conn_type :: ConnectionType
  conn_createdAt :: int

record SenseAtom =
  atomId :: string
  label :: string
  createdAt :: int
  senseWeight :: real
  baseSenseWeight :: real
  decayRate :: real
  detectedPierwiastki :: "string list option"
  primaryPierwiastek :: "string option"
  neuralPathways :: "string list"
  lastAccessTime :: int
  consolidationTime :: "int option"
  totalActivations :: nat
  emotionalBoostApplied :: "bool option"
  emotionalProcessingTime :: "real option"
  amygdalaActivationLevel :: "AmygdalaLevel option"
  oxidativeStress :: "real option"
  semanticVector :: "real list option"
  contextVector :: "real list option"
  connections :: "(string \<times> ConnectionStrength) list"
  clusters :: "string list"
  source :: "string option"
  confidence :: "real option"
  priority :: "real option"
  tags :: "string list"

text \<open>
  The constructor. \<open>pierwiastki || []\<close>: an absent list and every list are kept apart by
  the option; an array is truthy even when empty.
\<close>

definition new_SenseAtom :: "string \<Rightarrow> string \<Rightarrow> real \<Rightarrow> string list option \<Rightarrow> int \<Rightarrow> SenseAtom" where
  "new_SenseAtom ident lbl initialWeight pierwiastki now =
     \<lparr> atomId = ident, label = lbl, createdAt = now,
       senseWeight = initialWeight, baseSenseWeight = initialWeight, decayRate = 0.05,
       detectedPierwiastki = Some (case pierwiastki of None \<Rightarrow> [] | Some ps \<Rightarrow> ps),
       primaryPierwiastek = None, neuralPathways = [],
       lastAccessTime = now, consolidationTime = None, totalActivations = 0,
       emotionalBoostApplied = None, emotionalProcessingTime = None,
       amygdalaActivationLevel = None, oxidativeStress = None,
       semanticVector = None, contextVector = None,
       connections = [], clusters = [],
       source = None, confidence = None, priority = None, tags = [] \<rparr>"

definition activate :: "SenseAtom \<Rightarrow> int \<Rightarrow> SenseAtom" where
  "activate a now = a\<lparr>lastAccessTime := now, totalActivations := totalActivations a + 1\<rparr>"

definition addConnection :: "SenseAtom \<Rightarrow> string \<Rightarrow> real \<Rightarrow> ConnectionType \<Rightarrow> int \<Rightarrow> SenseAtom" where
  "addConnection a targetId s ty now =
     a\<lparr>connections := Map_set (connections a) targetId
          \<lparr>strength = s, conn_type = ty, conn_createdAt = now\<rparr>\<rparr>"

text \<open>\<open>removeConnection\<close> returns what \<open>Map.delete\<close> returns: whether the key was there.\<close>

definition removeConnection :: "SenseAtom \<Rightarrow> string \<Rightarrow> SenseAtom \<times> bool" where
  "removeConnection a targetId =
     (a\<lparr>connections := Map_delete (connections a) targetId\<rparr>, Map_has (connections a) targetId)"

text \<open>A timestamp is truthy unless it is 0; \<open>Math.log\<close> is the natural logarithm.\<close>

definition truthy_time :: "int option \<Rightarrow> bool" where
  "truthy_time t = (case t of None \<Rightarrow> False | Some v \<Rightarrow> v \<noteq> 0)"

definition calculateOverallStrength :: "SenseAtom \<Rightarrow> real" where
  "calculateOverallStrength a =
     (let connectionBonus = real (length (connections a)) * 0.1;
          activationBonus = ln (real (totalActivations a + 1)) * 0.1;
          ageBonus = (if truthy_time (consolidationTime a) then 0.2 else 0)
      in senseWeight a + connectionBonus + activationBonus + ageBonus)"

definition shouldConsolidate :: "SenseAtom \<Rightarrow> bool" where
  "shouldConsolidate a =
     (let minActivations = 5;
          minWeight = 0.3;
          hasEmotionalSignificance =
            (case amygdalaActivationLevel a of None \<Rightarrow> False | Some l \<Rightarrow> l \<in> set [HIGH, EXTREME])
      in (totalActivations a \<ge> minActivations \<and> senseWeight a \<ge> minWeight) \<or>
         hasEmotionalSignificance \<or>
         length (connections a) \<ge> 3)"

text \<open>
  The per-atom export. \<open>connections\<close> is the array of the map's entries; \<open>decayRate\<close>,
  \<open>consolidationTime\<close>, \<open>createdAt\<close> and \<open>baseSenseWeight\<close> are not exported.
\<close>

record AtomJSON =
  j_id :: string
  j_label :: string
  j_senseWeight :: real
  j_detectedPierwiastki :: "string list option"
  j_primaryPierwiastek :: "string option"
  j_lastAccessTime :: int
  j_totalActivations :: nat
  j_amygdalaActivationLevel :: "AmygdalaLevel option"
  j_connections :: "(string \<times> ConnectionStrength) list"
  j_overallStrength :: real

definition toJSON_atom :: "SenseAtom \<Rightarrow> AtomJSON" where
  "toJSON_atom a =
     \<lparr> j_id = atomId a, j_label = label a, j_senseWeight = senseWeight a,
       j_detectedPierwiastki = detectedPierwiastki a,
       j_primaryPierwiastek = primaryPierwiastek a,
       j_lastAccessTime = lastAccessTime a,
       j_totalActivations = totalActivations a,
       j_amygdalaActivationLevel = amygdalaActivationLevel a,
       j_connections = connections a,
       j_overallStrength = calculateOverallStrength a \<rparr>"

subsection \<open>RelationalGraph\<close>

record GraphStatistics =
  totalAtoms :: nat
  totalConnections :: real
  averageWeight :: real
  consolidatedAtoms :: nat
  lastUpdate :: int

record RelationalGraph =
  atoms :: "(string \<times> SenseAtom) list"
  graph_clusters :: "(string \<times> string list) list"
  statistics :: GraphStatistics

definition new_RelationalGraph :: "int \<Rightarrow> RelationalGraph" where
  "new_RelationalGraph now =
     \<lparr> atoms = [], graph_clusters = [],
       statistics = \<lparr> totalAtoms = 0, totalConnections = 0, averageWeight = 0,
                      consolidatedAtoms = 0, lastUpdate = now \<rparr> \<rparr>"

definition updateStatistics :: "RelationalGraph \<Rightarrow> int \<Rightarrow> RelationalGraph" where
  "updateStatistics g now =
     g\<lparr>statistics :=
         \<lparr> totalAtoms = length (atoms g),
           totalConnections =
             foldl (\<lambda>sum a. sum + real (length (connections a))) 0 (map snd (atoms g)) / 2,
           averageWeight =
             (if length (atoms g) > 0
              then foldl (\<lambda>sum a. sum + senseWeight a) 0 (map snd (atoms g)) / real (length (atoms g))
              else averageWeight (statistics g)),
           consolidatedAtoms = length (filter shouldConsolidate (map snd (atoms g))),
           lastUpdate = now \<rparr>\<rparr>"

definition addAtom :: "RelationalGraph \<Rightarrow> SenseAtom \<Rightarrow> int \<Rightarrow> RelationalGraph" where
  "addAtom g atom now = updateStatistics (g\<lparr>atoms := Map_set (atoms g) (atomId atom) atom\<rparr>) now"

definition getAtom :: "RelationalGraph \<Rightarrow> string \<Rightarrow> SenseAtom option" where
  "getAtom g ident = Map_get (atoms g) ident"

definition getAllAtoms :: "RelationalGraph \<Rightarrow> SenseAtom list" where
  "getAllAtoms g = map snd (atoms g)"

definition size_graph :: "RelationalGraph \<Rightarrow> nat" where
  "size_graph g = length (atoms g)"

text \<open>
  \<open>removeAtom\<close>: every atom of the graph (the removed one too) drops its connection to
  \<open>ident\<close>, every cluster drops \<open>ident\<close>, then the atom leaves the map.
\<close>

definition removeAtom :: "RelationalGraph \<Rightarrow> string \<Rightarrow> int \<Rightarrow> RelationalGraph \<times> bool" where
  "removeAtom g ident now =
     (case Map_get (atoms g) ident of
        None \<Rightarrow> (g, False)
      | Some atom \<Rightarrow>
          (let g1 = g\<lparr>atoms := map (\<lambda>(k, otherAtom). (k, fst (removeConnection otherAtom ident))) (atoms g)\<rparr>;
               g2 = g1\<lparr>graph_clusters := map (\<lambda>(name, cluster). (name, Set_delete cluster ident)) (graph_clusters g1)\<rparr>;
               removed = Map_has (atoms g2) ident;
               g3 = g2\<lparr>atoms := Map_delete (atoms g2) ident\<rparr>
           in if removed then (updateStatistics g3 now, True) else (g3, False)))"

text \<open>
  \<open>createConnection\<close>: both atoms are looked up first; the source atom is mutated, then
  the target atom (the same object when \<open>sourceId = targetId\<close>).
\<close>

definition createConnection ::
  "RelationalGraph \<Rightarrow> string \<Rightarrow> string \<Rightarrow> real \<Rightarrow> ConnectionType \<Rightarrow> int \<Rightarrow> RelationalGraph \<times> bool" where
  "createConnection g sourceId targetId s ty now =
     (case (Map_get (atoms g) sourceId, Map_get (atoms g) targetId) of
        (Some sourceAtom, Some targetAtom) \<Rightarrow>
          (let g1 = g\<lparr>atoms := AList.map_entry sourceId (\<lambda>a. addConnection a targetId s ty now) (atoms g)\<rparr>;
               g2 = g1\<lparr>atoms := AList.map_entry targetId (\<lambda>a. addConnection a sourceId s ty now) (atoms g1)\<rparr>
           in (updateStatistics g2 now, True))
      | _ \<Rightarrow> (g, False))"

text \<open>
  \<open>createCluster\<close>: the cluster is stored as a fresh \<open>Set\<close>; every listed identity that
  is in the graph gets the cluster's name pushed to its \<open>clusters\<close> array.
\<close>

definition createCluster :: "RelationalGraph \<Rightarrow> string \<Rightarrow> string list \<Rightarrow> RelationalGraph" where
  "createCluster g name atomIds =
     (let g1 = g\<lparr>graph_clusters := Map_set (graph_clusters g) name (new_Set atomIds)\<rparr>
      in foldl (\<lambda>h ident. h\<lparr>atoms := AList.map_entry ident (\<lambda>a. a\<lparr>clusters := clusters a @ [name]\<rparr>) (atoms h)\<rparr>)
           g1 atomIds)"

text \<open>
  \<open>optimize\<close>. First sweep: each atom collects the targets of its own connections of
  strength below 0.1 and deletes them from its own map. Second sweep: the isolated atoms of
  weight below 0.1 with fewer than 2 activations are collected, then removed one by one.
  The two counters are only logged by the source; the model returns them.
\<close>

definition weakConnections :: "SenseAtom \<Rightarrow> string list" where
  "weakConnections atom = map fst (filter (\<lambda>(targetId, conn). strength conn < 0.1) (connections atom))"

definition removeWeakConnections :: "SenseAtom \<Rightarrow> SenseAtom" where
  "removeWeakConnections atom =
     foldl (\<lambda>a targetId. fst (removeConnection a targetId)) atom (weakConnections atom)"

definition isolatedLowWeight :: "SenseAtom \<Rightarrow> bool" where
  "isolatedLowWeight atom =
     (length (connections atom) = 0 \<and> senseWeight atom < 0.1 \<and> totalActivations atom < 2)"

definition optimize :: "RelationalGraph \<Rightarrow> int \<Rightarrow> RelationalGraph \<times> nat \<times> nat" where
  "optimize g now =
     (let removedConnections = sum_list (map (\<lambda>(k, atom). length (weakConnections atom)) (atoms g));
          g1 = g\<lparr>atoms := map (\<lambda>(k, atom). (k, removeWeakConnections atom)) (atoms g)\<rparr>;
          toRemove = map (\<lambda>(k, atom). atomId atom) (filter (\<lambda>(k, atom). isolatedLowWeight atom) (atoms g1));
          g2 = foldl (\<lambda>h ident. fst (removeAtom h ident now)) g1 toRemove;
          removedAtoms = length toRemove
      in (updateStatistics g2 now, removedConnections, removedAtoms))"

subsection \<open>Export and import\<close>

record ClusterJSON =
  c_name :: string
  c_atomIds :: "string list"

record GraphJSON =
  j_atoms :: "AtomJSON list"
  j_clusters :: "ClusterJSON list"
  j_statistics :: GraphStatistics

definition toJSON :: "RelationalGraph \<Rightarrow> GraphJSON" where
  "toJSON g =
     \<lparr> j_atoms = map toJSON_atom (map snd (atoms g)),
       j_clusters = map (\<lambda>(name, atomIds). \<lparr>c_name = name, c_atomIds = atomIds\<rparr>) (graph_clusters g),
       j_statistics = statistics g \<rparr>"

text \<open>
  One atom of \<open>fromJSON\<close>: the constructor, then \<open>Object.assign(atom, atomData)\<close>, which
  copies every exported property over the fresh atom (\<open>overallStrength\<close> lands on a property
  the class does not declare and no method reads), then the connections are rebuilt as a
  \<open>Map\<close> from the exported entries.
\<close>

definition importAtom :: "AtomJSON \<Rightarrow> int \<Rightarrow> SenseAtom" where
  "importAtom atomData now =
     (let atom = new_SenseAtom (j_id atomData) (j_label atomData) (j_senseWeight atomData)
                   (j_detectedPierwiastki atomData) now;
          assigned = atom\<lparr> atomId := j_id atomData,
                           label := j_label atomData,
                           senseWeight := j_senseWeight atomData,
                           detectedPierwiastki := j_detectedPierwiastki atomData,
                           primaryPierwiastek := j_primaryPierwiastek atomData,
                           lastAccessTime := j_lastAccessTime atomData,
                           totalActivations := j_totalActivations atomData,
                           amygdalaActivationLevel := j_amygdalaActivationLevel atomData,
                           connections := j_connections atomData \<rparr>
      in assigned\<lparr>connections := new_Map (j_connections atomData)\<rparr>)"

definition fromJSON :: "GraphJSON \<Rightarrow> int \<Rightarrow> RelationalGraph" where
  "fromJSON data now =
     (let graph = new_RelationalGraph now;
          g1 = foldl (\<lambda>g atomData. addAtom g (importAtom atomData now) now) graph (j_atoms data)
      in foldl (\<lambda>g clusterData. createCluster g (c_name clusterData) (c_atomIds clusterData))
           g1 (j_clusters data))"

section \<open>The weight table and the constants (memory/neurosemantics/NS\_Definitions)\<close>

record NeuroSemanticWeight =
  area :: string
  weight :: real
  decayModifier :: real

text \<open>The table \<open>NS_WEIGHTS\<close>, without the free-text descriptions.\<close>

definition NS_WEIGHTS :: "(string \<times> NeuroSemanticWeight) list" where
  "NS_WEIGHTS =
    [(''POZADANIE_SZCZYPTA'', \<lparr>area = ''Amygdala'', weight = 0.8, decayModifier = 0.5\<rparr>),
     (''NAMIENTNOSC_POZADANIA'', \<lparr>area = ''Amygdala/VTA'', weight = 0.95, decayModifier = 0.3\<rparr>),
     (''ISKRA_ZYCIA'', \<lparr>area = ''BrainStem/Reticular'', weight = 1.0, decayModifier = 0.0\<rparr>),
     (''CHECI_PRAGNIENIA'', \<lparr>area = ''Amygdala/NAcc'', weight = 0.85, decayModifier = 0.4\<rparr>),
     (''ALGORYTM_ZAKOCHANIA'', \<lparr>area = ''NAcc/VTA'', weight = 0.9, decayModifier = 0.1\<rparr>),
     (''NADZIEJA_WYTRWALOSCI'', \<lparr>area = ''ACC/mPFC'', weight = 0.7, decayModifier = 0.15\<rparr>),
     (''WIARA_JAKO_TAKA'', \<lparr>area = ''NAcc/Parietal'', weight = 0.65, decayModifier = 0.1\<rparr>),
     (''CHECI_W_POJMOWANIU'', \<lparr>area = ''ACC/NAcc'', weight = 0.75, decayModifier = 0.2\<rparr>),
     (''PIERWIASTEK_MILOSCI'', \<lparr>area = ''VTA/NAcc/Insula'', weight = 0.85, decayModifier = 0.05\<rparr>),
     (''ALGORYTM_MILOSCI'', \<lparr>area = ''PFC/Insula'', weight = 0.8, decayModifier = 0.1\<rparr>),
     (''SZCZYPTA_INTELIGENCJI'', \<lparr>area = ''dlPFC/Parietal'', weight = 0.7, decayModifier = 0.25\<rparr>),
     (''POSWIECENIE'', \<lparr>area = ''mPFC/ACC'', weight = 0.9, decayModifier = 0.1\<rparr>),
     (''SLOWO_CZY_CIALEM'', \<lparr>area = ''Broca/Wernicke'', weight = 0.6, decayModifier = 0.2\<rparr>),
     (''SEKUNDNIK'', \<lparr>area = ''Cerebellum/SCN'', weight = 0.95, decayModifier = 0.0\<rparr>),
     (''ZROZUMIENIE'', \<lparr>area = ''Hippocampus/TPJ'', weight = 0.8, decayModifier = 0.15\<rparr>),
     (''POMYSL'', \<lparr>area = ''dlPFC/ACC'', weight = 0.75, decayModifier = 0.3\<rparr>),
     (''BRAK_WIARY_I_NADZIEI'', \<lparr>area = ''Amygdala/vlPFC'', weight = 0.6, decayModifier = 0.7\<rparr>),
     (''NIEUGIETA_BEZSILNOSC'', \<lparr>area = ''dlPFC/Amygdala'', weight = 0.7, decayModifier = 0.6\<rparr>),
     (''PRAGNIENIE_JAKO_TAKIE'', \<lparr>area = ''NAcc/Amygdala'', weight = 0.75, decayModifier = 0.35\<rparr>),
     (''TRANSCENDENCJA_GRANIC'', \<lparr>area = ''dlPFC/Parietal/Insula'', weight = 0.85, decayModifier = 0.2\<rparr>),
     (''JEDNOSC_BYTU'', \<lparr>area = ''mPFC/Insula/Parietal'', weight = 0.9, decayModifier = 0.1\<rparr>),
     (''MILOSC_BEZWARUNKOWA'', \<lparr>area = ''mPFC/Insula/VTA'', weight = 0.95, decayModifier = 0.05\<rparr>),
     (''INTUICJA_CZASOWA'', \<lparr>area = ''Insula/Cerebellum'', weight = 0.65, decayModifier = 0.3\<rparr>),
     (''ENERGIA_TWORCZA'', \<lparr>area = ''dlPFC/Hippocampus'', weight = 0.8, decayModifier = 0.25\<rparr>)]"

definition MIN_SENSE_WEIGHT :: real where "MIN_SENSE_WEIGHT = 0.01"
definition BASE_DECAY_RATE :: real where "BASE_DECAY_RATE = 0.05"
definition CONSOLIDATION_THRESHOLD :: real where "CONSOLIDATION_THRESHOLD = 0.1"

section \<open>The Decay Pass (memory/logic/decayScheduler)\<close>

record DecayStatistics =
  totalProcessed :: nat
  atomsDecayed :: nat
  atomsRemoved :: nat
  atomsConsolidated :: nat
  averageDecayRate :: real
  lastDecayRun :: int
  memoryOptimization :: real

record DecayConfig =
  enableAdaptiveDecay :: bool
  consolidationThreshold :: real
  removalThreshold :: real
  emotionalProtection :: bool
  temporalBonus :: bool
  connectionPreservation :: bool

text \<open>The scheduler object; its \<open>adaptiveRates\<close> table is filled once and never read.\<close>

record DecayScheduler =
  decay_statistics :: DecayStatistics
  config :: DecayConfig

definition new_DecayScheduler :: DecayScheduler where
  "new_DecayScheduler =
     \<lparr> decay_statistics =
         \<lparr> totalProcessed = 0, atomsDecayed = 0, atomsRemoved = 0, atomsConsolidated = 0,
           averageDecayRate = BASE_DECAY_RATE, lastDecayRun = 0, memoryOptimization = 0 \<rparr>,
       config =
         \<lparr> enableAdaptiveDecay = True,
           consolidationThreshold = CONSOLIDATION_THRESHOLD,
           removalThreshold = MIN_SENSE_WEIGHT,
           emotionalProtection = True,
           temporalBonus = True,
           connectionPreservation = True \<rparr> \<rparr>"

definition applyElementBasedDecay :: "SenseAtom \<Rightarrow> real \<Rightarrow> real" where
  "applyElementBasedDecay atom baseDecayRate =
     (case detectedPierwiastki atom of
        None \<Rightarrow> baseDecayRate
      | Some ps \<Rightarrow>
          if length ps = 0 then baseDecayRate
          else
            (let minDecayModifier =
                   foldl (\<lambda>m pierwiastek.
                            case Map_get NS_WEIGHTS pierwiastek of
                              None \<Rightarrow> m
                            | Some neuroData \<Rightarrow> min m (decayModifier neuroData))
                         1.0 ps
             in baseDecayRate * minDecayModifier))"

definition applyAdaptiveDecay :: "SenseAtom \<Rightarrow> real \<Rightarrow> int \<Rightarrow> real" where
  "applyAdaptiveDecay atom baseDecayRate currentTime =
     (let timeSinceLastAccess = currentTime - lastAccessTime atom;
          daysSinceAccess = real_of_int timeSinceLastAccess / (1000 * 60 * 60 * 24);
          adaptiveMultiplier =
            (if daysSinceAccess > 30 then 2.0
             else if daysSinceAccess > 7 then 1.5
             else if daysSinceAccess > 1 then 1.2
             else if daysSinceAccess < 0.1 then 0.5
             else 1.0);
          adaptiveMultiplier2 =
            (if totalActivations atom > 10 then adaptiveMultiplier * 0.8
             else if totalActivations atom > 5 then adaptiveMultiplier * 0.9
             else adaptiveMultiplier)
      in baseDecayRate * adaptiveMultiplier2)"

definition protectionMultipliers :: "AmygdalaLevel \<Rightarrow> real" where
  "protectionMultipliers l =
     (case l of MINIMAL \<Rightarrow> 1.0 | LOW \<Rightarrow> 0.9 | MEDIUM \<Rightarrow> 0.7 | HIGH \<Rightarrow> 0.5 | EXTREME \<Rightarrow> 0.2)"

definition applyEmotionalProtection :: "SenseAtom \<Rightarrow> real \<Rightarrow> real" where
  "applyEmotionalProtection atom baseDecayRate =
     (case amygdalaActivationLevel atom of
        None \<Rightarrow> baseDecayRate
      | Some l \<Rightarrow> baseDecayRate * protectionMultipliers l)"

definition applyTemporalBonus :: "SenseAtom \<Rightarrow> real \<Rightarrow> int \<Rightarrow> real" where
  "applyTemporalBonus atom baseDecayRate currentTime =
     (let timeSinceAccess = currentTime - lastAccessTime atom;
          hoursSinceAccess = real_of_int timeSinceAccess / (1000 * 60 * 60)
      in if hoursSinceAccess < 1 then baseDecayRate * 0.3
         else if hoursSinceAccess < 6 then baseDecayRate * 0.6
         else if hoursSinceAccess < 24 then baseDecayRate * 0.8
         else baseDecayRate)"

definition applyConnectionProtection :: "SenseAtom \<Rightarrow> real \<Rightarrow> real" where
  "applyConnectionProtection atom baseDecayRate =
     (let connectionCount = length (connections atom)
      in if connectionCount \<ge> 5 then baseDecayRate * 0.6
         else if connectionCount \<ge> 3 then baseDecayRate * 0.8
         else baseDecayRate)"

definition isProtectedFromRemoval :: "SenseAtom \<Rightarrow> int \<Rightarrow> bool" where
  "isProtectedFromRemoval atom now =
     (if (case amygdalaActivationLevel atom of None \<Rightarrow> False | Some l \<Rightarrow> l \<in> set [HIGH, EXTREME])
      then True
      else if (case detectedPierwiastki atom of
                 None \<Rightarrow> False
               | Some ps \<Rightarrow> list_ex (\<lambda>p. p \<in> set [''ISKRA_ZYCIA'', ''SEKUNDNIK'', ''PIERWIASTEK_MILOSCI'']) ps)
      then True
      else if length (connections atom) \<ge> 5 then True
      else if (case consolidationTime atom of
                 None \<Rightarrow> False
               | Some t \<Rightarrow> t \<noteq> 0 \<and> now - t < 24 * 60 * 60 * 1000)
      then True
      else False)"

record DecayResult =
  decayApplied :: real
  decayAmount :: real
  shouldRemove :: bool
  shouldConsolidate_result :: bool
  finalWeight :: real

text \<open>
  \<open>processAtomDecay\<close> mutates the atom's weight and returns the result record.
  \<open>atom.decayRate || BASE_DECAY_RATE\<close>: a rate of 0 is falsy and gives the base rate.
\<close>

definition processAtomDecay :: "DecayConfig \<Rightarrow> SenseAtom \<Rightarrow> int \<Rightarrow> SenseAtom \<times> DecayResult" where
  "processAtomDecay cfg atom currentTime =
     (let decayRate0 = (if decayRate atom = 0 then BASE_DECAY_RATE else decayRate atom);
          decayRate1 = applyElementBasedDecay atom decayRate0;
          decayRate2 = (if enableAdaptiveDecay cfg then applyAdaptiveDecay atom decayRate1 currentTime else decayRate1);
          decayRate3 = (if emotionalProtection cfg then applyEmotionalProtection atom decayRate2 else decayRate2);
          decayRate4 = (if temporalBonus cfg then applyTemporalBonus atom decayRate3 currentTime else decayRate3);
          decayRate5 = (if connectionPreservation cfg then applyConnectionProtection atom decayRate4 else decayRate4);
          amount = senseWeight atom * decayRate5;
          atom' = atom\<lparr>senseWeight := max (senseWeight atom - amount) 0\<rparr>;
          remove = (senseWeight atom' < removalThreshold cfg \<and> \<not> isProtectedFromRemoval atom' currentTime);
          consolidate = (shouldConsolidate atom' \<and> senseWeight atom' \<ge> consolidationThreshold cfg)
      in (atom', \<lparr> decayApplied = decayRate5, decayAmount = amount, shouldRemove = remove,
                   shouldConsolidate_result = consolidate, finalWeight = senseWeight atom' \<rparr>))"

definition consolidateAtom :: "SenseAtom \<Rightarrow> int \<Rightarrow> SenseAtom" where
  "consolidateAtom atom now =
     atom\<lparr> consolidationTime := Some now,
           decayRate := decayRate atom * 0.5,
           baseSenseWeight := senseWeight atom \<rparr>"

text \<open>
  \<open>applyDecay\<close>. The first loop processes every atom of \<open>getAllAtoms()\<close> in place and
  sorts its identity into \<open>atomsToRemove\<close> or, else, \<open>atomsToConsolidate\<close>; the second
  loop removes, the third consolidates the atoms still found under their identity; the graph
  is optimized when an atom was removed.
\<close>

definition decayAll :: "DecayConfig \<Rightarrow> (string \<times> SenseAtom) list \<Rightarrow> int \<Rightarrow> (string \<times> SenseAtom \<times> DecayResult) list" where
  "decayAll cfg entries now = map (\<lambda>(k, atom). (k, processAtomDecay cfg atom now)) entries"

definition removeMarked :: "RelationalGraph \<Rightarrow> string list \<Rightarrow> int \<Rightarrow> RelationalGraph \<times> nat" where
  "removeMarked g atomsToRemove now =
     foldl (\<lambda>(h, n) ident. case removeAtom h ident now of (h', ok) \<Rightarrow> (h', if ok then n + 1 else n))
       (g, 0) atomsToRemove"

definition consolidateMarked :: "RelationalGraph \<Rightarrow> string list \<Rightarrow> int \<Rightarrow> RelationalGraph \<times> nat" where
  "consolidateMarked g atomsToConsolidate now =
     foldl (\<lambda>(h, n) ident.
              case getAtom h ident of
                None \<Rightarrow> (h, n)
              | Some atom \<Rightarrow>
                  (h\<lparr>atoms := AList.map_entry ident (\<lambda>a. consolidateAtom a now) (atoms h)\<rparr>, n + 1))
       (g, 0) atomsToConsolidate"

definition atomsToRemove :: "(string \<times> SenseAtom \<times> DecayResult) list \<Rightarrow> string list" where
  "atomsToRemove results =
     map (\<lambda>(k, atom', r). atomId atom') (filter (\<lambda>(k, atom', r). shouldRemove r) results)"

definition atomsToConsolidate :: "(string \<times> SenseAtom \<times> DecayResult) list \<Rightarrow> string list" where
  "atomsToConsolidate results =
     map (\<lambda>(k, atom', r). atomId atom')
       (filter (\<lambda>(k, atom', r). \<not> shouldRemove r \<and> shouldConsolidate_result r) results)"

definition applyDecay :: "DecayScheduler \<Rightarrow> RelationalGraph \<Rightarrow> int \<Rightarrow> DecayScheduler \<times> RelationalGraph" where
  "applyDecay sch g now =
     (let initialSize = size_graph g;
          results = decayAll (config sch) (atoms g) now;
          g1 = g\<lparr>atoms := map (\<lambda>(k, atom', r). (k, atom')) results\<rparr>;
          processed = length results;
          totalDecayApplied = foldl (\<lambda>sum (k, atom', r). sum + decayApplied r) 0 results;
          decayed = length (filter (\<lambda>(k, atom', r). decayApplied r > 0) results);
          removed = removeMarked g1 (atomsToRemove results) now;
          consolidated = consolidateMarked (fst removed) (atomsToConsolidate results) now;
          stats = \<lparr> totalProcessed = processed, atomsDecayed = decayed, atomsRemoved = snd removed,
                    atomsConsolidated = snd consolidated,
                    averageDecayRate = (if processed > 0 then totalDecayApplied / real processed else 0),
                    lastDecayRun = now,
                    memoryOptimization =
                      (if initialSize > 0 then (real (snd removed) / real initialSize) * 100 else 0) \<rparr>;
          g4 = (if snd removed > 0 then fst (optimize (fst consolidated) now) else fst consolidated)
      in (sch\<lparr>decay_statistics := stats\<rparr>, g4))"

section \<open>The Excitation Pass (memory/logic/excitationEngine)\<close>

text \<open>
  A query is a JavaScript string: the list of its UTF-16 code units. \<open>units\<close> writes an
  ASCII literal as code units; the Polish letters of the keyword table are given by their
  code units (U+0142 l with stroke, U+015B s acute, U+0107 c acute, U+0105 a ogonek,
  U+0119 e ogonek, U+017C z with dot above).
\<close>

type_synonym jsstring = "nat list"

definition units :: "string \<Rightarrow> jsstring" where
  "units s = map of_char s"

fun startsWith :: "'a list \<Rightarrow> 'a list \<Rightarrow> bool" where
  "startsWith s [] = True"
| "startsWith [] (k # ks) = False"
| "startsWith (c # cs) (k # ks) = (c = k \<and> startsWith cs ks)"

text \<open>\<open>s.includes(keyword)\<close>: the keyword occurs in \<open>s\<close> as a contiguous run.\<close>

fun includes_js :: "'a list \<Rightarrow> 'a list \<Rightarrow> bool" where
  "includes_js [] keyword = (keyword = [])"
| "includes_js (c # cs) keyword = (startsWith (c # cs) keyword \<or> includes_js cs keyword)"

definition keywordMap :: "(string \<times> jsstring list) list" where
  "keywordMap =
    [(''ALGORYTM_ZAKOCHANIA'',
       [units ''mi'' @ [322] @ units ''o'' @ [347, 263],
        units ''zakochanie'',
        units ''uczucie'',
        units ''romans'']),
     (''NADZIEJA_WYTRWALOSCI'',
       [units ''nadzieja'',
        units ''wytrwa'' @ [322] @ units ''o'' @ [347, 263],
        units ''determinacja'',
        units ''cel'']),
     (''SZCZYPTA_INTELIGENCJI'',
       [units ''inteligencja'',
        units ''m'' @ [261] @ units ''dro'' @ [347, 263],
        units ''analiza'',
        units ''logika'']),
     (''POSWIECENIE'',
       [units ''po'' @ [347] @ units ''wi'' @ [281] @ units ''cenie'',
        units ''altruizm'',
        units ''dla innych'',
        units ''ofiara'']),
     (''ZROZUMIENIE'',
       [units ''rozumiem'',
        units ''zrozumienie'',
        units ''pojmuj'' @ [281],
        units ''jasne'']),
     (''POMYSL'',
       [units ''pomys'' @ [322],
        units ''idea'',
        units ''koncepcja'',
        units ''rozwi'' @ [261] @ units ''zanie'']),
     (''BRAK_WIARY_I_NADZIEI'',
       [units ''beznadzieja'',
        units ''rozpacz'',
        units ''nie wierz'' @ [281],
        units ''brak wiary'']),
     (''ISKRA_ZYCIA'',
       [[380] @ units ''ycie'',
        units ''energia'',
        units ''si'' @ [322] @ units ''a'',
        units ''iskra'']),
     (''SEKUNDNIK'',
       [units ''czas'',
        units ''rytm'',
        units ''cykl'',
        units ''takt''])]"

text \<open>
  \<open>detectPierwiastkiInQuery\<close>. \<open>toLowerCase\<close> is the runtime's Unicode lower-casing, not
  code of this repository: it is the parameter \<open>toLowerCase\<close>.
\<close>

definition detectPierwiastkiInQuery :: "(jsstring \<Rightarrow> jsstring) \<Rightarrow> jsstring \<Rightarrow> string list" where
  "detectPierwiastkiInQuery toLowerCase query =
     (let queryLower = toLowerCase query
      in map fst (filter (\<lambda>(pierwiastek, keywords). list_ex (\<lambda>keyword. includes_js queryLower keyword) keywords)
                    keywordMap))"

text \<open>The body of the loop of \<open>processContextExcitation\<close>: the atom after it, and whether it was activated.\<close>

definition exciteAtom :: "string list \<Rightarrow> SenseAtom \<Rightarrow> int \<Rightarrow> SenseAtom \<times> bool" where
  "exciteAtom detectedElements atom now =
     (case detectedPierwiastki atom of
        None \<Rightarrow> (atom, False)
      | Some ps \<Rightarrow>
          (let overlap = filter (\<lambda>p. p \<in> set detectedElements) ps
           in if length overlap > 0
              then (let excitationBoost = real (length overlap) / real (length detectedElements)
                    in (atom\<lparr>senseWeight := senseWeight atom * (1 + excitationBoost),
                             lastAccessTime := now\<rparr>, True))
              else (atom, False)))"

text \<open>
  \<open>sort((a, b) => b.senseWeight - a.senseWeight)\<close>: a stable sort, heaviest first.
\<close>

definition sortByWeightDesc :: "SenseAtom list \<Rightarrow> SenseAtom list" where
  "sortByWeightDesc xs = sort_key (\<lambda>a. - senseWeight a) xs"

definition activateTopWeightAtoms ::
  "RelationalGraph \<Rightarrow> nat \<Rightarrow> int \<Rightarrow> string list \<Rightarrow> RelationalGraph \<times> SenseAtom list \<times> string list" where
  "activateTopWeightAtoms g count now activeAtoms =
     (let top = take count (sortByWeightDesc (getAllAtoms g));
          g' = foldl (\<lambda>h atom. h\<lparr>atoms := AList.map_entry (atomId atom) (\<lambda>a. a\<lparr>lastAccessTime := now\<rparr>) (atoms h)\<rparr>)
                 g top
      in (g', map (\<lambda>atom. atom\<lparr>lastAccessTime := now\<rparr>) top,
          foldl Set_add activeAtoms (map atomId top)))"

text \<open>
  \<open>processContextExcitation\<close>: \<open>query\<close> is \<open>None\<close> for \<open>null\<close>; \<open>null\<close> and the empty
  string are falsy and take the spontaneous branch. \<open>activeAtoms\<close> is the set
  \<open>nsfState.activeAtoms\<close> of the module. The result is the graph, the activated atoms in
  the order returned, and the set.
\<close>

definition processContextExcitation ::
  "(jsstring \<Rightarrow> jsstring) \<Rightarrow> RelationalGraph \<Rightarrow> jsstring option \<Rightarrow> int \<Rightarrow> string list
     \<Rightarrow> RelationalGraph \<times> SenseAtom list \<times> string list" where
  "processContextExcitation toLowerCase g query now activeAtoms =
     (case query of
        None \<Rightarrow> activateTopWeightAtoms g 3 now activeAtoms
      | Some q \<Rightarrow>
          if q = [] then activateTopWeightAtoms g 3 now activeAtoms
          else
            (let detectedElements = detectPierwiastkiInQuery toLowerCase q;
                 results = map (\<lambda>(k, atom). (k, exciteAtom detectedElements atom now)) (atoms g);
                 g' = g\<lparr>atoms := map (\<lambda>(k, atom', hit). (k, atom')) results\<rparr>;
                 activatedAtoms = map (\<lambda>(k, atom', hit). atom') (filter (\<lambda>(k, atom', hit). hit) results)
             in (g', sortByWeightDesc activatedAtoms,
                 foldl Set_add activeAtoms (map atomId activatedAtoms))))"

section \<open>Notions used in the proofs\<close>

text \<open>Two atoms that differ at most in their adjacency maps.\<close>

definition sameCore :: "SenseAtom \<Rightarrow> SenseAtom \<Rightarrow> bool" where
  "sameCore a b = (\<exists>c. b = a\<lparr>connections := c\<rparr>)"

text \<open>The loop \<open>ids.forEach(id => removeAtom(id))\<close>, without the counter.\<close>

definition removeAll_atoms :: "RelationalGraph \<Rightarrow> string list \<Rightarrow> int \<Rightarrow> RelationalGraph" where
  "removeAll_atoms g ids now = foldl (\<lambda>h ident. fst (removeAtom h ident now)) g ids"

text \<open>
  What a graph built by the class is by construction: a \<open>Map\<close> has each key once, and
  \<open>addAtom\<close> stores an atom under its own \<open>id\<close>, which is read-only.
\<close>

definition keyed :: "(string \<times> SenseAtom) list \<Rightarrow> bool" where
  "keyed entries = (distinct (map fst entries) \<and> list_all (\<lambda>(k, a). atomId a = k) entries)"

definition wellFormed :: "RelationalGraph \<Rightarrow> bool" where
  "wellFormed g =
     (keyed (atoms g) \<and> list_all (\<lambda>(k, a). distinct (map fst (connections a))) (atoms g))"

text \<open>The atom as \<open>processAtomDecay\<close> leaves it, and the two marks of \<open>applyDecay\<close>.\<close>

definition decayed :: "DecayConfig \<Rightarrow> int \<Rightarrow> SenseAtom \<Rightarrow> SenseAtom" where
  "decayed cfg now a = fst (processAtomDecay cfg a now)"

definition markedRemove :: "DecayConfig \<Rightarrow> int \<Rightarrow> SenseAtom \<Rightarrow> bool" where
  "markedRemove cfg now a = shouldRemove (snd (processAtomDecay cfg a now))"

definition markedConsolidate :: "DecayConfig \<Rightarrow> int \<Rightarrow> SenseAtom \<Rightarrow> bool" where
  "markedConsolidate cfg now a =
     (\<not> shouldRemove (snd (processAtomDecay cfg a now)) \<and>
      shouldConsolidate_result (snd (processAtomDecay cfg a now)))"

text \<open>
  The atom as a Decay Pass leaves it, up to its connections, and the graph of \<open>applyDecay\<close>
  before its closing \<open>optimize\<close>.
\<close>

definition outcome :: "DecayConfig \<Rightarrow> int \<Rightarrow> SenseAtom \<Rightarrow> SenseAtom" where
  "outcome cfg now a =
     (if markedConsolidate cfg now a then consolidateAtom (decayed cfg now a) now else decayed cfg now a)"

definition beforeOptimize :: "DecayScheduler \<Rightarrow> RelationalGraph \<Rightarrow> int \<Rightarrow> RelationalGraph" where
  "beforeOptimize sch g now =
     (let results = decayAll (config sch) (atoms g) now;
          g1 = g\<lparr>atoms := map (\<lambda>(k, a). (k, fst (processAtomDecay (config sch) a now))) (atoms g)\<rparr>;
          removed = removeMarked g1 (atomsToRemove results) now
      in fst (consolidateMarked (fst removed) (atomsToConsolidate results) now))"

text \<open>An atom without its cluster memberships.\<close>

definition withoutClusters :: "SenseAtom \<Rightarrow> SenseAtom" where
  "withoutClusters a = a\<lparr>clusters := []\<rparr>"

text \<open>The tags of an atom, none when the list is absent, and the overlap count of the loop.\<close>

definition tagsOf :: "SenseAtom \<Rightarrow> string list" where
  "tagsOf a = (case detectedPierwiastki a of None \<Rightarrow> [] | Some ps \<Rightarrow> ps)"

definition overlapCount :: "string list \<Rightarrow> SenseAtom \<Rightarrow> nat" where
  "overlapCount detectedElements a = length (filter (\<lambda>p. p \<in> set detectedElements) (tagsOf a))"

text \<open>
  The first keyword of the love group, \<open>mi\<close>, U+0142, \<open>o\<close>, U+015B, U+0107, in code units.
\<close>

definition milosc :: jsstring where
  "milosc = units ''mi'' @ [322] @ units ''o'' @ [347, 263]"

text \<open>
  Symmetric adjacency: every edge of an atom stored under \<open>k\<close> to a target \<open>t\<close> has a
  mirror edge, from the atom stored under \<open>t\<close> back to \<open>k\<close>, of the same strength.
\<close>

definition symmetricGraph :: "RelationalGraph \<Rightarrow> bool" where
  "symmetricGraph g =
     list_all (\<lambda>(k, a).
        list_all (\<lambda>(t, c).
           case Map_get (atoms g) t of
             None \<Rightarrow> False
           | Some b \<Rightarrow> (case Map_get (connections b) k of
                          None \<Rightarrow> False
                        | Some c' \<Rightarrow> strength c' = strength c))
          (connections a))
       (atoms g)"

text \<open>The connections that the first sweep of \<open>optimize\<close> keeps.\<close>

definition strongConnections :: "SenseAtom \<Rightarrow> (string \<times> ConnectionStrength) list" where
  "strongConnections a = filter (\<lambda>(targetId, conn). \<not> strength conn < 0.1) (connections a)"

section \<open>Examples\<close>

definition exampleAtomA :: SenseAtom where
  "exampleAtomA = new_SenseAtom ''a'' ''first'' 1.0 None 0"

definition exampleAtomB :: SenseAtom where
  "exampleAtomB = new_SenseAtom ''b'' ''second'' 0.5 (Some [''ALGORYTM_ZAKOCHANIA'']) 0"

definition exampleGraph :: RelationalGraph where
  "exampleGraph = addAtom (addAtom (new_RelationalGraph 0) exampleAtomA 0) exampleAtomB 0"

text \<open>
  An atom with a high amygdala activation level, and the graph that holds it after one and
  after two Decay Passes.
\<close>

definition emotionalAtom :: SenseAtom where
  "emotionalAtom = (new_SenseAtom ''p'' ''promoted'' 1.0 None 0)\<lparr>amygdalaActivationLevel := Some HIGH\<rparr>"

definition emotionalGraph :: RelationalGraph where
  "emotionalGraph = addAtom (new_RelationalGraph 0) emotionalAtom 0"

definition afterFirstPass :: RelationalGraph where
  "afterFirstPass = snd (applyDecay new_DecayScheduler emotionalGraph 5)"

definition afterSecondPass :: RelationalGraph where
  "afterSecondPass = snd (applyDecay new_DecayScheduler afterFirstPass 1000)"

text \<open>The example graph with one connection.\<close>

definition connectedGraph :: RelationalGraph where
  "connectedGraph = fst (createConnection exampleGraph ''a'' ''b'' 0.7 EMOTIONAL 5)"

text \<open>
  A lower-casing for the examples: it agrees with the runtime's \<open>toLowerCase\<close> on strings of
  ASCII and Polish letters.
\<close>

definition lowerUnit :: "nat \<Rightarrow> nat" where
  "lowerUnit c =
     (if 65 \<le> c \<and> c \<le> 90 then c + 32
      else if c \<in> set [260, 262, 280, 321, 323, 346, 377, 379] then c + 1
      else if c = 211 then 243
      else c)"

definition toLowerCase_latin :: "jsstring \<Rightarrow> jsstring" where
  "toLowerCase_latin s = map lowerUnit s"

text \<open>The query \<open>Mi\<close>, U+0142, \<open>o\<close>, U+015A, U+0106: the love keyword in mixed case.\<close>

definition loveQuery :: jsstring where
  "loveQuery = units ''Mi'' @ [322] @ units ''o'' @ [346, 262]"

text \<open>
  A graph with a one-directional edge, built by the operations of the class: two faint atoms
  are connected, then \<open>addAtom\<close> stores a fresh atom under the identity of the first.
\<close>

definition faintAtom :: "string \<Rightarrow> SenseAtom" where
  "faintAtom k = new_SenseAtom k ''faint'' 0.05 None 0"

definition overwrittenGraph :: RelationalGraph where
  "overwrittenGraph =
     addAtom
       (fst (createConnection
               (addAtom (addAtom (new_RelationalGraph 0) (faintAtom ''a'') 0) (faintAtom ''b'') 0)
               ''a'' ''b'' 0.5 SEMANTIC 0))
       (faintAtom ''a'') 1"

text \<open>A symmetric graph with one weak edge between a faint atom and a heavier one.\<close>

definition weakGraph :: RelationalGraph where
  "weakGraph =
     fst (createConnection
            (addAtom (addAtom (new_RelationalGraph 0) (faintAtom ''a'') 0) exampleAtomB 0)
            ''a'' ''b'' 0.05 SEMANTIC 0)"

section \<open>Properties of the Node Store\<close>

subsection \<open>Association lists\<close>

lemma map_of_map_entry_eq:
  "map_of (AList.map_entry k f xs) k' = (if k' = k then map_option f (map_of xs k) else map_of xs k')"
  by (simp add: map_of_map_entry split: option.splits)

lemma map_of_map_snd:
  "map_of (map (\<lambda>(k, v). (k, f v)) xs) k = map_option f (map_of xs k)"
  by (induction xs) auto

lemma map_of_delete_same: "map_of (AList.delete k al) k = None"
  by (simp add: delete_conv')

lemma in_set_deleteD: "(k', v) \<in> set (AList.delete k al) \<Longrightarrow> k' \<noteq> k \<and> (k', v) \<in> set al"
  by (auto simp: AList.delete_eq)

lemma atoms_updateStatistics [simp]: "atoms (updateStatistics g now) = atoms g"
  by (simp add: updateStatistics_def)

lemma clusters_updateStatistics [simp]: "graph_clusters (updateStatistics g now) = graph_clusters g"
  by (simp add: updateStatistics_def)

subsection \<open>The example graph\<close>

lemma atoms_exampleGraph: "atoms exampleGraph = [(''a'', exampleAtomA), (''b'', exampleAtomB)]"
  by (simp add: exampleGraph_def addAtom_def new_RelationalGraph_def Map_set_def
        exampleAtomA_def exampleAtomB_def new_SenseAtom_def)

lemma getAtom_exampleGraph:
  "getAtom exampleGraph ''a'' = Some exampleAtomA"
  "getAtom exampleGraph ''b'' = Some exampleAtomB"
  "getAtom exampleGraph ''c'' = None"
  by (simp_all add: getAtom_def Map_get_def atoms_exampleGraph)

subsection \<open>createConnection\<close>

lemma Map_get_addConnection_same:
  "Map_get (connections (addConnection a t s ty now)) t =
     Some \<lparr>strength = s, conn_type = ty, conn_createdAt = now\<rparr>"
  by (simp add: addConnection_def Map_get_def Map_set_def update_conv')

lemma Map_get_addConnection_other:
  "t' \<noteq> t \<Longrightarrow> Map_get (connections (addConnection a t s ty now)) t' = Map_get (connections a) t'"
  by (simp add: addConnection_def Map_get_def Map_set_def update_conv')

text \<open>
  Claim C2. When the identities \<open>A\<close> and \<open>B\<close> are both in the graph,
  \<open>createConnection g A B S K\<close> succeeds, and afterwards the adjacency map of \<open>A\<close> has an
  edge to \<open>B\<close> of strength \<open>S\<close> and kind \<open>K\<close> and the adjacency map of \<open>B\<close> has an edge
  to \<open>A\<close> of the same strength and kind (also when \<open>A = B\<close>).
\<close>

theorem createConnection_symmetric:
  assumes "getAtom g A = Some a" and "getAtom g B = Some b"
  shows "\<exists>g' a' b' ca cb. createConnection g A B S K now = (g', True) \<and>
           getAtom g' A = Some a' \<and> getAtom g' B = Some b' \<and>
           Map_get (connections a') B = Some ca \<and> strength ca = S \<and> conn_type ca = K \<and>
           Map_get (connections b') A = Some cb \<and> strength cb = S \<and> conn_type cb = K"
  using assms
  by (cases "A = B")
     (auto simp: createConnection_def getAtom_def Map_get_def updateStatistics_def Let_def
        map_of_map_entry_eq Map_get_addConnection_same[unfolded Map_get_def]
        Map_get_addConnection_other[unfolded Map_get_def])

theorem createConnection_symmetric_witness:
  "getAtom exampleGraph ''a'' = Some exampleAtomA \<and> getAtom exampleGraph ''b'' = Some exampleAtomB \<and>
   (\<exists>g' a' b' ca cb. createConnection exampleGraph ''a'' ''b'' 0.7 EMOTIONAL 5 = (g', True) \<and>
           getAtom g' ''a'' = Some a' \<and> getAtom g' ''b'' = Some b' \<and>
           Map_get (connections a') ''b'' = Some ca \<and> strength ca = 0.7 \<and> conn_type ca = EMOTIONAL \<and>
           Map_get (connections b') ''a'' = Some cb \<and> strength cb = 0.7 \<and> conn_type cb = EMOTIONAL)"
  using createConnection_symmetric [OF getAtom_exampleGraph(1) getAtom_exampleGraph(2), of "0.7" EMOTIONAL 5]
    getAtom_exampleGraph
  by simp

subsection \<open>removeAtom\<close>

lemma connections_removeConnection:
  "Map_get (connections (fst (removeConnection a X))) X = None"
  by (simp add: removeConnection_def Map_get_def Map_delete_def map_of_delete_same)

lemma removeAtom_present:
  assumes "getAtom g X = Some x"
  shows "removeAtom g X now =
    (updateStatistics
       (g\<lparr>graph_clusters := map (\<lambda>(name, cluster). (name, Set_delete cluster X)) (graph_clusters g),
          atoms := Map_delete (map (\<lambda>(k, otherAtom). (k, fst (removeConnection otherAtom X))) (atoms g)) X\<rparr>)
       now, True)"
  using assms
  by (simp add: removeAtom_def getAtom_def Map_get_def Map_has_def Let_def map_of_map_snd)



subsection \<open>Missing entities\<close>

text \<open>
  Claim C9. \<open>createConnection\<close> with an endpoint that is not in the graph returns false
  and the graph it leaves is the graph it was given; \<open>removeAtom\<close> of an identity that is not in
  the graph does the same. Neither function has a failing branch: both are total, and the
  source has no \<open>throw\<close> and no call that can raise on these paths.
\<close>

theorem missing_entity_returns_false:
  "(getAtom g A = None \<or> getAtom g B = None \<longrightarrow> createConnection g A B S K now = (g, False)) \<and>
   (getAtom g X = None \<longrightarrow> removeAtom g X now = (g, False))"
  by (auto simp: createConnection_def removeAtom_def getAtom_def split: option.splits)

theorem missing_entity_returns_false_witness:
  "getAtom exampleGraph ''c'' = None \<and>
   createConnection exampleGraph ''a'' ''c'' 0.5 SEMANTIC 3 = (exampleGraph, False) \<and>
   createConnection exampleGraph ''c'' ''a'' 0.5 SEMANTIC 3 = (exampleGraph, False) \<and>
   removeAtom exampleGraph ''c'' 3 = (exampleGraph, False)"
  using missing_entity_returns_false [where g = exampleGraph and A = "''a''" and B = "''c''"
          and X = "''c''" and S = "0.5" and K = SEMANTIC and now = 3]
    missing_entity_returns_false [where g = exampleGraph and A = "''c''" and B = "''a''"
          and X = "''c''" and S = "0.5" and K = SEMANTIC and now = 3]
    getAtom_exampleGraph
  by simp

subsection \<open>Atoms that differ in their connections only; loops of removeAtom\<close>

lemma sameCore_refl [simp]: "sameCore a a"
  unfolding sameCore_def by (rule exI [of _ "connections a"]) simp

lemma sameCore_trans: "sameCore a b \<Longrightarrow> sameCore b c \<Longrightarrow> sameCore a c"
  unfolding sameCore_def by auto

lemma sameCore_update [simp]: "sameCore a (a\<lparr>connections := c\<rparr>)"
  unfolding sameCore_def by blast

lemma sameCore_fields:
  assumes "sameCore a b"
  shows "senseWeight b = senseWeight a" "decayRate b = decayRate a"
    "consolidationTime b = consolidationTime a" "atomId b = atomId a"
    "totalActivations b = totalActivations a" "lastAccessTime b = lastAccessTime a"
  using assms unfolding sameCore_def by auto

lemma sameCore_removeConnection [simp]: "sameCore a (fst (removeConnection a X))"
  by (simp add: removeConnection_def)

lemma removeAtom_atoms:
  "atoms (fst (removeAtom g X now)) =
     (if Map_has (atoms g) X
      then Map_delete (map (\<lambda>(k, a). (k, fst (removeConnection a X))) (atoms g)) X
      else atoms g)"
  by (auto simp: removeAtom_def Map_get_def Map_has_def Let_def map_of_map_snd split: option.splits)

lemma removeAtom_derived:
  assumes "(k, b) \<in> set (atoms (fst (removeAtom g X now)))"
  shows "\<exists>a. (k, a) \<in> set (atoms g) \<and> sameCore a b"
proof (cases "Map_has (atoms g) X")
  case True
  with assms obtain a where "(k, a) \<in> set (atoms g)" "b = fst (removeConnection a X)"
    by (auto simp: removeAtom_atoms Map_delete_def dest!: in_set_deleteD)
  then show ?thesis using sameCore_removeConnection by blast
next
  case False
  with assms show ?thesis by (auto simp: removeAtom_atoms)
qed

lemma removeAtom_kept:
  assumes "(k, a) \<in> set (atoms g)" and "k \<noteq> X"
  shows "\<exists>b. (k, b) \<in> set (atoms (fst (removeAtom g X now))) \<and> sameCore a b"
proof (cases "Map_has (atoms g) X")
  case True
  have "(k, fst (removeConnection a X)) \<in> set (atoms (fst (removeAtom g X now)))"
    using assms True by (force simp: removeAtom_atoms Map_delete_def AList.delete_eq)
  then show ?thesis using sameCore_removeConnection by blast
next
  case False
  then show ?thesis using assms by (auto simp: removeAtom_atoms)
qed

lemma removeAtom_keys:
  "map fst (atoms (fst (removeAtom g X now))) = removeAll X (map fst (atoms g))"
proof (cases "Map_has (atoms g) X")
  case True
  then show ?thesis
    by (simp add: removeAtom_atoms Map_delete_def delete_keys comp_def case_prod_unfold)
next
  case False
  then have "X \<notin> set (map fst (atoms g))"
    by (simp add: Map_has_def map_of_eq_None_iff)
  then show ?thesis using False by (simp add: removeAtom_atoms)
qed


lemma removeAll_atoms_derived:
  "(k, b) \<in> set (atoms (removeAll_atoms g ids now)) \<Longrightarrow> \<exists>a. (k, a) \<in> set (atoms g) \<and> sameCore a b"
proof (induction ids arbitrary: g b)
  case Nil
  then show ?case by (auto simp: removeAll_atoms_def)
next
  case (Cons i ids)
  from Cons.prems have "(k, b) \<in> set (atoms (removeAll_atoms (fst (removeAtom g i now)) ids now))"
    by (simp add: removeAll_atoms_def)
  from Cons.IH [OF this] obtain a where a: "(k, a) \<in> set (atoms (fst (removeAtom g i now)))" "sameCore a b"
    by blast
  from removeAtom_derived [OF a(1)] obtain a0 where "(k, a0) \<in> set (atoms g)" "sameCore a0 a"
    by blast
  with a(2) show ?case using sameCore_trans by blast
qed

lemma removeAll_atoms_kept:
  "(k, a) \<in> set (atoms g) \<Longrightarrow> k \<notin> set ids \<Longrightarrow>
     \<exists>b. (k, b) \<in> set (atoms (removeAll_atoms g ids now)) \<and> sameCore a b"
proof (induction ids arbitrary: g a)
  case Nil
  then show ?case by (auto simp: removeAll_atoms_def)
next
  case (Cons i ids)
  from Cons.prems have ne: "k \<noteq> i" and notin: "k \<notin> set ids" by auto
  from removeAtom_kept [OF Cons.prems(1) ne, of now]
  obtain a1 where a1: "(k, a1) \<in> set (atoms (fst (removeAtom g i now)))" "sameCore a a1" by blast
  from Cons.IH [OF a1(1) notin] obtain b where
    "(k, b) \<in> set (atoms (removeAll_atoms (fst (removeAtom g i now)) ids now))" "sameCore a1 b" by blast
  with a1(2) show ?case using sameCore_trans by (auto simp: removeAll_atoms_def)
qed

lemma removeAll_atoms_keys:
  "map fst (atoms (removeAll_atoms g ids now)) = filter (\<lambda>k. k \<notin> set ids) (map fst (atoms g))"
proof (induction ids arbitrary: g)
  case Nil
  then show ?case by (simp add: removeAll_atoms_def)
next
  case (Cons i ids)
  have "map fst (atoms (removeAll_atoms g (i # ids) now)) =
        map fst (atoms (removeAll_atoms (fst (removeAtom g i now)) ids now))"
    by (simp add: removeAll_atoms_def)
  also have "\<dots> = filter (\<lambda>k. k \<notin> set ids) (removeAll i (map fst (atoms g)))"
    by (simp add: Cons.IH removeAtom_keys)
  also have "\<dots> = filter (\<lambda>k. k \<notin> set (i # ids)) (map fst (atoms g))"
    by (simp add: removeAll_filter_not_eq conj_commute eq_commute)
  finally show ?case .
qed

lemma fst_removeMarked_aux:
  "fst (foldl (\<lambda>(h, n) ident. case removeAtom h ident now of (h', ok) \<Rightarrow> (h', if ok then n + 1 else n)) (g, n0) ids)
     = removeAll_atoms g ids now"
  by (induction ids arbitrary: g n0) (auto simp: removeAll_atoms_def split: prod.splits)

lemma fst_removeMarked: "fst (removeMarked g ids now) = removeAll_atoms g ids now"
  by (simp add: removeMarked_def fst_removeMarked_aux)

section \<open>Properties of the Decay Pass\<close>

lemma processAtomDecay_weight:
  "senseWeight (fst (processAtomDecay cfg a now)) \<ge> 0"
  by (simp add: processAtomDecay_def Let_def)

lemma processAtomDecay_sameId [simp]:
  "atomId (fst (processAtomDecay cfg a now)) = atomId a"
  by (simp add: processAtomDecay_def Let_def)

lemma atoms_after_decayAll:
  "map (\<lambda>(k, atom', r). (k, atom')) (decayAll cfg xs now) =
     map (\<lambda>(k, a). (k, fst (processAtomDecay cfg a now))) xs"
  by (simp add: decayAll_def case_prod_unfold comp_def)

lemma in_set_map_entryD:
  "(k, b) \<in> set (AList.map_entry i f xs) \<Longrightarrow> \<exists>a. (k, a) \<in> set xs \<and> (b = a \<or> b = f a)"
  by (induction xs) (auto split: if_splits)

lemma consolidateMarked_weights:
  assumes "\<forall>(k, a) \<in> set (atoms g). 0 \<le> senseWeight a"
  shows "\<forall>(k, a) \<in> set (atoms (fst (consolidateMarked g ids now))). 0 \<le> senseWeight a"
proof -
  have "\<forall>(k, a) \<in> set (atoms (fst (foldl (\<lambda>(h, n) ident.
              case getAtom h ident of
                None \<Rightarrow> (h, n)
              | Some atom \<Rightarrow>
                  (h\<lparr>atoms := AList.map_entry ident (\<lambda>a. consolidateAtom a now) (atoms h)\<rparr>, n + 1))
       (g, n0) ids))). 0 \<le> senseWeight a" for n0
    using assms
  proof (induction ids arbitrary: g n0)
    case Nil
    then show ?case by simp
  next
    case (Cons i ids)
    show ?case
    proof (cases "getAtom g i")
      case None
      then show ?thesis using Cons.IH [OF Cons.prems] by simp
    next
      case (Some atom)
      let ?g1 = "g\<lparr>atoms := AList.map_entry i (\<lambda>a. consolidateAtom a now) (atoms g)\<rparr>"
      have "\<forall>(k, a) \<in> set (atoms ?g1). 0 \<le> senseWeight a"
        using Cons.prems by (auto dest!: in_set_map_entryD simp: consolidateAtom_def)
      from Cons.IH [OF this] show ?thesis using Some by simp
    qed
  qed
  then show ?thesis by (simp add: consolidateMarked_def)
qed

lemma sameCore_removeWeakConnections [simp]: "sameCore a (removeWeakConnections a)"
proof -
  have "sameCore a (foldl (\<lambda>a targetId. fst (removeConnection a targetId)) b ts)" if "sameCore a b" for b ts
    using that
  proof (induction ts arbitrary: b)
    case Nil
    then show ?case by simp
  next
    case (Cons t ts)
    have "sameCore a (fst (removeConnection b t))"
      using Cons.prems sameCore_removeConnection sameCore_trans by blast
    from Cons.IH [OF this] show ?case by simp
  qed
  then show ?thesis by (simp add: removeWeakConnections_def)
qed

lemma atoms_optimize:
  "atoms (fst (optimize g now)) =
     atoms (removeAll_atoms (g\<lparr>atoms := map (\<lambda>(k, atom). (k, removeWeakConnections atom)) (atoms g)\<rparr>)
        (map (\<lambda>(k, atom). atomId atom)
           (filter (\<lambda>(k, atom). isolatedLowWeight atom)
              (map (\<lambda>(k, atom). (k, removeWeakConnections atom)) (atoms g)))) now)"
  by (simp add: optimize_def Let_def removeAll_atoms_def)

lemma optimize_derived:
  assumes "(k, b) \<in> set (atoms (fst (optimize g now)))"
  shows "\<exists>a. (k, a) \<in> set (atoms g) \<and> sameCore a b"
proof -
  from assms [unfolded atoms_optimize] removeAll_atoms_derived
  obtain a1 where a1: "(k, a1) \<in> set (map (\<lambda>(k, atom). (k, removeWeakConnections atom)) (atoms g))"
      "sameCore a1 b"
    by fastforce
  then obtain a where "(k, a) \<in> set (atoms g)" "a1 = removeWeakConnections a" by auto
  with a1(2) show ?thesis using sameCore_removeWeakConnections sameCore_trans by blast
qed

lemma snd_applyDecay:
  "snd (applyDecay sch g now) =
     (let results = decayAll (config sch) (atoms g) now;
          g1 = g\<lparr>atoms := map (\<lambda>(k, a). (k, fst (processAtomDecay (config sch) a now))) (atoms g)\<rparr>;
          removed = removeMarked g1 (atomsToRemove results) now;
          consolidated = consolidateMarked (fst removed) (atomsToConsolidate results) now
      in if snd removed > 0 then fst (optimize (fst consolidated) now) else fst consolidated)"
  by (simp add: applyDecay_def Let_def atoms_after_decayAll)

lemma nonneg_after_decay:
  "(k, a) \<in> set (atoms (g\<lparr>atoms := map (\<lambda>(k, a). (k, fst (processAtomDecay cfg a now))) (atoms g)\<rparr>))
     \<Longrightarrow> 0 \<le> senseWeight a"
  by (auto simp: processAtomDecay_weight)

lemma removeMarked_weights:
  assumes "\<forall>(k, a) \<in> set (atoms g). 0 \<le> senseWeight a"
  shows "\<forall>(k, a) \<in> set (atoms (fst (removeMarked g ids now))). 0 \<le> senseWeight a"
proof -
  { fix k b assume "(k, b) \<in> set (atoms (fst (removeMarked g ids now)))"
    then obtain a where "(k, a) \<in> set (atoms g)" "sameCore a b"
      unfolding fst_removeMarked using removeAll_atoms_derived by blast
    with assms have "0 \<le> senseWeight b" by (auto simp: sameCore_fields) }
  then show ?thesis by auto
qed

lemma optimize_weights:
  assumes "\<forall>(k, a) \<in> set (atoms g). 0 \<le> senseWeight a"
  shows "\<forall>(k, a) \<in> set (atoms (fst (optimize g now))). 0 \<le> senseWeight a"
proof -
  { fix k b assume "(k, b) \<in> set (atoms (fst (optimize g now)))"
    from optimize_derived [OF this] obtain a where "(k, a) \<in> set (atoms g)" "sameCore a b"
      by blast
    with assms have "0 \<le> senseWeight b" by (auto simp: sameCore_fields) }
  then show ?thesis by auto
qed



subsection \<open>The whole pass\<close>

lemma map_entry_distinct:
  "distinct (map fst xs) \<Longrightarrow>
     AList.map_entry i f xs = map (\<lambda>(k, a). (k, if k = i then f a else a)) xs"
proof (induction xs)
  case Nil
  then show ?case by simp
next
  case (Cons p ps)
  show ?case
  proof (cases "fst p = i")
    case True
    with Cons.prems have "i \<notin> fst ` set ps" by auto
    then have "map (\<lambda>(k, a). (k, if k = i then f a else a)) ps = ps"
      by (induction ps) auto
    with True show ?thesis by (cases p) simp
  next
    case False
    with Cons show ?thesis by (cases p) simp
  qed
qed

lemma map_entry_absent: "i \<notin> fst ` set xs \<Longrightarrow> AList.map_entry i f xs = xs"
  by (induction xs) auto

lemma map_fst_map_entry [simp]: "map fst (AList.map_entry i f xs) = map fst xs"
  by (induction xs) auto

lemma atoms_consolidateMarked_aux:
  "atoms (fst (foldl (\<lambda>(h, n) ident.
              case getAtom h ident of
                None \<Rightarrow> (h, n)
              | Some atom \<Rightarrow>
                  (h\<lparr>atoms := AList.map_entry ident (\<lambda>a. consolidateAtom a now) (atoms h)\<rparr>, n + 1))
       (g, n0) ids)) =
   foldl (\<lambda>xs i. AList.map_entry i (\<lambda>a. consolidateAtom a now) xs) (atoms g) ids"
proof (induction ids arbitrary: g n0)
  case Nil
  then show ?case by simp
next
  case (Cons i ids)
  show ?case
  proof (cases "getAtom g i")
    case None
    then have "i \<notin> fst ` set (atoms g)"
      by (simp add: getAtom_def Map_get_def map_of_eq_None_iff)
    then have "AList.map_entry i (\<lambda>a. consolidateAtom a now) (atoms g) = atoms g"
      by (rule map_entry_absent)
    with None Cons.IH show ?thesis by simp
  next
    case (Some atom)
    with Cons.IH show ?thesis by simp
  qed
qed

lemma atoms_consolidateMarked:
  "atoms (fst (consolidateMarked g ids now)) =
     foldl (\<lambda>xs i. AList.map_entry i (\<lambda>a. consolidateAtom a now) xs) (atoms g) ids"
  by (simp add: consolidateMarked_def atoms_consolidateMarked_aux)

lemma foldl_map_entry_distinct:
  assumes "distinct (map fst xs)" and "distinct ids"
  shows "foldl (\<lambda>xs i. AList.map_entry i f xs) xs ids =
           map (\<lambda>(k, a). (k, if k \<in> set ids then f a else a)) xs"
  using assms
proof (induction ids arbitrary: xs)
  case Nil
  then show ?case by (simp add: case_prod_unfold)
next
  case (Cons i ids)
  let ?ys = "AList.map_entry i f xs"
  have d: "distinct (map fst ?ys)" using Cons.prems by simp
  have "foldl (\<lambda>xs i. AList.map_entry i f xs) xs (i # ids) =
        map (\<lambda>(k, a). (k, if k \<in> set ids then f a else a)) ?ys"
    using Cons.IH [OF d] Cons.prems by simp
  also have "\<dots> = map (\<lambda>(k, a). (k, if k \<in> set (i # ids) then f a else a)) xs"
    using Cons.prems by (auto simp: map_entry_distinct)
  finally show ?case .
qed

lemma keyed_map:
  assumes "keyed xs" and "\<And>a. atomId (f a) = atomId a"
  shows "keyed (map (\<lambda>(k, a). (k, f a)) xs)"
  using assms by (auto simp: keyed_def list_all_iff comp_def case_prod_unfold)

lemma keyed_atomIds:
  "keyed xs \<Longrightarrow> map (\<lambda>(k, a). atomId a) (filter (\<lambda>(k, a). P a) xs) = map fst (filter (\<lambda>(k, a). P a) xs)"
  by (auto simp: keyed_def list_all_iff)

lemma keyed_lookup: "keyed xs \<Longrightarrow> (k, a) \<in> set xs \<Longrightarrow> map_of xs k = Some a"
  by (simp add: keyed_def)

lemma keyed_unique: "keyed xs \<Longrightarrow> (k, a) \<in> set xs \<Longrightarrow> (k, b) \<in> set xs \<Longrightarrow> a = b"
  by (metis keyed_lookup option.inject)

lemma keyed_filter_mem:
  assumes "keyed xs" and "(k, a) \<in> set xs"
  shows "k \<in> set (map fst (filter (\<lambda>(k, a). P a) xs)) \<longleftrightarrow> P a"
proof
  assume "k \<in> set (map fst (filter (\<lambda>(k, a). P a) xs))"
  then obtain b where "(k, b) \<in> set xs" "P b" by auto
  with assms show "P a" using keyed_unique by blast
next
  assume "P a"
  with assms(2) show "k \<in> set (map fst (filter (\<lambda>(k, a). P a) xs))" by force
qed

lemma atomsToRemove_eq:
  "atomsToRemove (decayAll cfg xs now) = map (\<lambda>(k, a). atomId a) (filter (\<lambda>(k, a). markedRemove cfg now a) xs)"
  by (induction xs) (simp_all add: atomsToRemove_def decayAll_def markedRemove_def case_prod_unfold)

lemma atomsToConsolidate_eq:
  "atomsToConsolidate (decayAll cfg xs now) =
     map (\<lambda>(k, a). atomId a) (filter (\<lambda>(k, a). markedConsolidate cfg now a) xs)"
  by (induction xs) (simp_all add: atomsToConsolidate_def decayAll_def markedConsolidate_def case_prod_unfold)

lemma keyed_derived:
  assumes "keyed xs" and "map fst ys = filter P (map fst xs)"
    and "\<And>k b. (k, b) \<in> set ys \<Longrightarrow> \<exists>a. (k, a) \<in> set xs \<and> sameCore a b"
  shows "keyed ys"
proof -
  have "distinct (map fst ys)" using assms(1,2) by (simp add: keyed_def)
  moreover have "atomId b = k" if "(k, b) \<in> set ys" for k b
  proof -
    from assms(3) [OF that] obtain a where "(k, a) \<in> set xs" "sameCore a b" by blast
    with assms(1) show ?thesis by (auto simp: keyed_def list_all_iff sameCore_fields)
  qed
  ultimately show ?thesis by (auto simp: keyed_def list_all_iff)
qed

lemma keyed_removeAll_atoms:
  assumes "keyed (atoms g)"
  shows "keyed (atoms (removeAll_atoms g ids now))"
  by (rule keyed_derived [OF assms removeAll_atoms_keys]) (rule removeAll_atoms_derived)

lemma sameCore_removeWeak_fields:
  "senseWeight (removeWeakConnections a) = senseWeight a"
  "totalActivations (removeWeakConnections a) = totalActivations a"
  "atomId (removeWeakConnections a) = atomId a"
  using sameCore_removeWeakConnections [of a] by (simp_all add: sameCore_fields)

lemma optimize_keys:
  "\<exists>P. map fst (atoms (fst (optimize g now))) = filter P (map fst (atoms g))"
  by (rule exI, simp add: atoms_optimize removeAll_atoms_keys comp_def case_prod_unfold)

lemma keyed_optimize:
  assumes "keyed (atoms g)"
  shows "keyed (atoms (fst (optimize g now)))"
proof -
  from optimize_keys obtain P where "map fst (atoms (fst (optimize g now))) = filter P (map fst (atoms g))"
    by blast
  from keyed_derived [OF assms this] optimize_derived show ?thesis by blast
qed

lemma optimize_kept:
  assumes "keyed (atoms g)" and "(k, a) \<in> set (atoms g)"
    and "\<not> (senseWeight a < 0.1 \<and> totalActivations a < 2)"
  shows "\<exists>b. (k, b) \<in> set (atoms (fst (optimize g now))) \<and> sameCore a b"
proof -
  let ?ps = "map (\<lambda>(k, atom). (k, removeWeakConnections atom)) (atoms g)"
  let ?ids = "map (\<lambda>(k, atom). atomId atom) (filter (\<lambda>(k, atom). isolatedLowWeight atom) ?ps)"
  have kp: "keyed ?ps"
    by (rule keyed_map [OF assms(1)]) (simp add: sameCore_removeWeak_fields)
  have mem: "(k, removeWeakConnections a) \<in> set ?ps"
    using assms(2) by force
  have "\<not> isolatedLowWeight (removeWeakConnections a)"
    using assms(3) by (simp add: isolatedLowWeight_def sameCore_removeWeak_fields)
  then have "k \<notin> set ?ids"
    using keyed_filter_mem [OF kp mem, of isolatedLowWeight] by (simp add: keyed_atomIds [OF kp])
  from removeAll_atoms_kept [of k "removeWeakConnections a" "g\<lparr>atoms := ?ps\<rparr>" ?ids now] mem this
  obtain b where "(k, b) \<in> set (atoms (removeAll_atoms (g\<lparr>atoms := ?ps\<rparr>) ?ids now))"
    "sameCore (removeWeakConnections a) b" by auto
  then show ?thesis
    using sameCore_trans [OF sameCore_removeWeakConnections] by (auto simp: atoms_optimize)
qed

lemma sameCore_consolidateAtom:
  "sameCore a b \<Longrightarrow> sameCore (consolidateAtom a now) (consolidateAtom b now)"
proof -
  assume "sameCore a b"
  then obtain c where b: "b = a\<lparr>connections := c\<rparr>" unfolding sameCore_def by blast
  have "consolidateAtom b now = (consolidateAtom a now)\<lparr>connections := c\<rparr>"
    unfolding b consolidateAtom_def by (rule SenseAtom.equality) simp_all
  then show ?thesis unfolding sameCore_def by blast
qed

lemma applyDecay_cases:
  "snd (applyDecay sch g now) = beforeOptimize sch g now \<or>
   snd (applyDecay sch g now) = fst (optimize (beforeOptimize sch g now) now)"
  by (simp add: snd_applyDecay beforeOptimize_def Let_def)

lemma decayed_fields [simp]:
  "atomId (decayed cfg now a) = atomId a"
  "totalActivations (decayed cfg now a) = totalActivations a"
  "decayRate (decayed cfg now a) = decayRate a"
  "consolidationTime (decayed cfg now a) = consolidationTime a"
  by (simp_all add: decayed_def processAtomDecay_def Let_def)

lemma atoms_beforeOptimize:
  assumes "keyed (atoms g)"
  shows "atoms (beforeOptimize sch g now) =
     map (\<lambda>(k, a). (k, if k \<in> set (map fst (filter (\<lambda>(k, a). markedConsolidate (config sch) now a) (atoms g)))
                        then consolidateAtom a now else a))
       (atoms (removeAll_atoms
          (g\<lparr>atoms := map (\<lambda>(k, a). (k, decayed (config sch) now a)) (atoms g)\<rparr>)
          (map fst (filter (\<lambda>(k, a). markedRemove (config sch) now a) (atoms g))) now))"
proof -
  let ?g1 = "g\<lparr>atoms := map (\<lambda>(k, a). (k, decayed (config sch) now a)) (atoms g)\<rparr>"
  let ?R = "map fst (filter (\<lambda>(k, a). markedRemove (config sch) now a) (atoms g))"
  let ?C = "map fst (filter (\<lambda>(k, a). markedConsolidate (config sch) now a) (atoms g))"
  have k1: "keyed (atoms ?g1)"
    using keyed_map [OF assms, of "decayed (config sch) now"] by simp
  have k2: "keyed (atoms (removeAll_atoms ?g1 ?R now))"
    by (rule keyed_removeAll_atoms [OF k1])
  have dC: "distinct ?C"
    using assms by (simp add: keyed_def distinct_map_filter)
  have "atoms (beforeOptimize sch g now) =
      foldl (\<lambda>xs i. AList.map_entry i (\<lambda>a. consolidateAtom a now) xs)
        (atoms (removeAll_atoms ?g1 ?R now)) ?C"
    by (simp add: beforeOptimize_def Let_def atoms_consolidateMarked fst_removeMarked
          atomsToRemove_eq atomsToConsolidate_eq keyed_atomIds [OF assms] decayed_def)
  also have "\<dots> = map (\<lambda>(k, a). (k, if k \<in> set ?C then consolidateAtom a now else a))
        (atoms (removeAll_atoms ?g1 ?R now))"
    by (rule foldl_map_entry_distinct) (use k2 dC in \<open>simp_all add: keyed_def\<close>)
  finally show ?thesis .
qed

lemma in_set_map_keyD:
  "(k, b) \<in> set (map (\<lambda>(k, a). (k, F k a)) ys) \<Longrightarrow> \<exists>a. (k, a) \<in> set ys \<and> b = F k a"
  by (induction ys) auto

lemma in_set_map_keyI:
  "(k, a) \<in> set ys \<Longrightarrow> (k, F k a) \<in> set (map (\<lambda>(k, a). (k, F k a)) ys)"
  by (induction ys) auto

lemma beforeOptimize_derived:
  assumes "keyed (atoms g)" and "(k, b) \<in> set (atoms (beforeOptimize sch g now))"
  shows "\<exists>a. (k, a) \<in> set (atoms g) \<and> sameCore (outcome (config sch) now a) b"
proof -
  let ?g1 = "g\<lparr>atoms := map (\<lambda>(k, a). (k, decayed (config sch) now a)) (atoms g)\<rparr>"
  let ?R = "map fst (filter (\<lambda>(k, a). markedRemove (config sch) now a) (atoms g))"
  let ?C = "map fst (filter (\<lambda>(k, a). markedConsolidate (config sch) now a) (atoms g))"
  from in_set_map_keyD [of k b "\<lambda>k a. if k \<in> set ?C then consolidateAtom a now else a"
      "atoms (removeAll_atoms ?g1 ?R now)"] assms(2) [unfolded atoms_beforeOptimize [OF assms(1)]]
  obtain a2 where a2: "(k, a2) \<in> set (atoms (removeAll_atoms ?g1 ?R now))"
      and b: "b = (if k \<in> set ?C then consolidateAtom a2 now else a2)"
    by blast
  from removeAll_atoms_derived [OF a2] obtain a1 where a1: "(k, a1) \<in> set (atoms ?g1)" "sameCore a1 a2"
    by blast
  from a1(1) have "(k, a1) \<in> set (map (\<lambda>(k, a). (k, decayed (config sch) now a)) (atoms g))"
    by simp
  from in_set_map_keyD [of k a1 "\<lambda>k. decayed (config sch) now" "atoms g"] this
  obtain a where a: "(k, a) \<in> set (atoms g)" "a1 = decayed (config sch) now a"
    by blast
  have C: "k \<in> set ?C \<longleftrightarrow> markedConsolidate (config sch) now a"
    by (rule keyed_filter_mem [OF assms(1) a(1)])
  have "sameCore (outcome (config sch) now a) b"
  proof (cases "markedConsolidate (config sch) now a")
    case True
    then have "b = consolidateAtom a2 now" using b C by simp
    moreover have "outcome (config sch) now a = consolidateAtom a1 now"
      using True a(2) by (simp add: outcome_def)
    ultimately show ?thesis using sameCore_consolidateAtom [OF a1(2)] by simp
  next
    case False
    then have "b = a2" using b C by simp
    moreover have "outcome (config sch) now a = a1"
      using False a(2) by (simp add: outcome_def)
    ultimately show ?thesis using a1(2) by simp
  qed
  with a(1) show ?thesis by blast
qed

lemma beforeOptimize_kept:
  assumes "keyed (atoms g)" and "(k, a) \<in> set (atoms g)" and "\<not> markedRemove (config sch) now a"
  shows "\<exists>b. (k, b) \<in> set (atoms (beforeOptimize sch g now)) \<and> sameCore (outcome (config sch) now a) b"
proof -
  let ?g1 = "g\<lparr>atoms := map (\<lambda>(k, a). (k, decayed (config sch) now a)) (atoms g)\<rparr>"
  let ?R = "map fst (filter (\<lambda>(k, a). markedRemove (config sch) now a) (atoms g))"
  let ?C = "map fst (filter (\<lambda>(k, a). markedConsolidate (config sch) now a) (atoms g))"
  have R: "k \<notin> set ?R"
    using keyed_filter_mem [OF assms(1,2), of "markedRemove (config sch) now"] assms(3) by simp
  have "(k, decayed (config sch) now a) \<in> set (atoms ?g1)"
    using in_set_map_keyI [OF assms(2), of "\<lambda>k. decayed (config sch) now"] by simp
  from removeAll_atoms_kept [OF this R, of now] obtain a2 where
    a2: "(k, a2) \<in> set (atoms (removeAll_atoms ?g1 ?R now))" "sameCore (decayed (config sch) now a) a2"
    by blast
  have C: "k \<in> set ?C \<longleftrightarrow> markedConsolidate (config sch) now a"
    by (rule keyed_filter_mem [OF assms(1,2)])
  let ?b = "if k \<in> set ?C then consolidateAtom a2 now else a2"
  have mem: "(k, ?b) \<in> set (atoms (beforeOptimize sch g now))"
    unfolding atoms_beforeOptimize [OF assms(1)]
    by (rule in_set_map_keyI [OF a2(1), of "\<lambda>k a. if k \<in> set ?C then consolidateAtom a now else a"])
  have "sameCore (outcome (config sch) now a) ?b"
  proof (cases "markedConsolidate (config sch) now a")
    case True
    then show ?thesis using C sameCore_consolidateAtom [OF a2(2)] by (simp add: outcome_def)
  next
    case False
    then show ?thesis using C a2(2) by (simp add: outcome_def)
  qed
  with mem show ?thesis by blast
qed

lemma keyed_map_key:
  assumes "keyed xs" and "\<And>k a. atomId (F k a) = atomId a"
  shows "keyed (map (\<lambda>(k, a). (k, F k a)) xs)"
  using assms by (auto simp: keyed_def list_all_iff comp_def case_prod_unfold)

lemma atomId_consolidateAtom [simp]: "atomId (consolidateAtom a now) = atomId a"
  by (simp add: consolidateAtom_def)

lemma keyed_beforeOptimize:
  assumes "keyed (atoms g)"
  shows "keyed (atoms (beforeOptimize sch g now))"
proof -
  let ?g1 = "g\<lparr>atoms := map (\<lambda>(k, a). (k, decayed (config sch) now a)) (atoms g)\<rparr>"
  let ?R = "map fst (filter (\<lambda>(k, a). markedRemove (config sch) now a) (atoms g))"
  have k1: "keyed (atoms ?g1)"
    using keyed_map [OF assms, of "decayed (config sch) now"] by simp
  have k2: "keyed (atoms (removeAll_atoms ?g1 ?R now))"
    by (rule keyed_removeAll_atoms [OF k1])
  show ?thesis
    unfolding atoms_beforeOptimize [OF assms]
    by (rule keyed_map_key [OF k2]) simp
qed

lemma outcome_fields:
  "senseWeight (outcome cfg now a) = senseWeight (decayed cfg now a)"
  "totalActivations (outcome cfg now a) = totalActivations a"
  "decayRate (outcome cfg now a) = (if markedConsolidate cfg now a then decayRate a * 0.5 else decayRate a)"
  "consolidationTime (outcome cfg now a) =
     (if markedConsolidate cfg now a then Some now else consolidationTime a)"
  by (simp_all add: outcome_def consolidateAtom_def)

lemma applyDecay_derived:
  assumes "keyed (atoms g)" and "(k, b) \<in> set (atoms (snd (applyDecay sch g now)))"
  shows "\<exists>a. (k, a) \<in> set (atoms g) \<and> sameCore (outcome (config sch) now a) b"
proof -
  from applyDecay_cases [of sch g now] assms(2)
  obtain b0 where "(k, b0) \<in> set (atoms (beforeOptimize sch g now))" "sameCore b0 b"
    using optimize_derived sameCore_refl by metis
  with beforeOptimize_derived [OF assms(1)] show ?thesis
    using sameCore_trans by blast
qed

lemma applyDecay_kept:
  assumes "keyed (atoms g)" and "(k, a) \<in> set (atoms g)" and "\<not> markedRemove (config sch) now a"
    and "\<not> (senseWeight (decayed (config sch) now a) < 0.1 \<and> totalActivations a < 2)"
  shows "\<exists>b. (k, b) \<in> set (atoms (snd (applyDecay sch g now))) \<and> sameCore (outcome (config sch) now a) b"
proof -
  from beforeOptimize_kept [OF assms(1,2,3)] obtain b0 where
    b0: "(k, b0) \<in> set (atoms (beforeOptimize sch g now))" "sameCore (outcome (config sch) now a) b0"
    by blast
  have "\<not> (senseWeight b0 < 0.1 \<and> totalActivations b0 < 2)"
    using assms(4) sameCore_fields [OF b0(2)] by (simp add: outcome_fields)
  from optimize_kept [OF keyed_beforeOptimize [OF assms(1)] b0(1) this, of now]
  obtain b1 where "(k, b1) \<in> set (atoms (fst (optimize (beforeOptimize sch g now) now)))" "sameCore b0 b1"
    by blast
  with b0 applyDecay_cases [of sch g now] show ?thesis
    using sameCore_trans by metis
qed

lemma keyed_applyDecay:
  assumes "keyed (atoms g)"
  shows "keyed (atoms (snd (applyDecay sch g now)))"
  using applyDecay_cases [of sch g now] keyed_beforeOptimize [OF assms] keyed_optimize
  by metis

lemma keyed_getAtom: "keyed (atoms g) \<Longrightarrow> getAtom g k = Some a \<longleftrightarrow> (k, a) \<in> set (atoms g)"
  by (auto simp: getAtom_def Map_get_def keyed_def dest: map_of_SomeD)

lemma markedConsolidate_weight:
  "markedConsolidate cfg now a \<Longrightarrow> consolidationThreshold cfg \<le> senseWeight (decayed cfg now a)"
  by (simp add: markedConsolidate_def decayed_def processAtomDecay_def Let_def)

lemma markedConsolidate_not_removed:
  "markedConsolidate cfg now a \<Longrightarrow> \<not> markedRemove cfg now a"
  by (simp add: markedConsolidate_def markedRemove_def)


lemmas decay_defs =
  processAtomDecay_def applyElementBasedDecay_def applyAdaptiveDecay_def
  applyEmotionalProtection_def applyTemporalBonus_def applyConnectionProtection_def
  isProtectedFromRemoval_def shouldConsolidate_def protectionMultipliers_def
  new_DecayScheduler_def BASE_DECAY_RATE_def MIN_SENSE_WEIGHT_def CONSOLIDATION_THRESHOLD_def

lemma month_old_decay:
  assumes "senseWeight a = 1" and "decayRate a = 0.05"
    and "detectedPierwiastki a = None \<or> detectedPierwiastki a = Some []"
    and "amygdalaActivationLevel a = None" and "connections a = []" and "totalActivations a = 0"
    and "now - lastAccessTime a > 30 * 24 * 60 * 60 * 1000"
  shows "processAtomDecay (config new_DecayScheduler) a now =
           (a\<lparr>senseWeight := 0.9\<rparr>,
            \<lparr>decayApplied = 0.05 * 2.0, decayAmount = 1.0 * (0.05 * 2.0), shouldRemove = False,
             shouldConsolidate_result = False, finalWeight = 0.9\<rparr>)"
  using assms by (auto simp: decay_defs Let_def)

text \<open>
  Claim C7. For an atom of weight 1.0, decay coefficient 0.05, no tags, no amygdala
  activation level, no connections, no activations, last accessed more than 30 days before
  \<open>now\<close>, under the default configuration: the tag-based, emotional, temporal and
  connectivity modifiers leave the rate unchanged, the recency modifier doubles it, and
  \<open>processAtomDecay\<close> sets the weight to 1.0 - 1.0 * (0.05 * 2.0) = 0.90; in a graph whose
  atoms are stored under their own identities the atom is still there after the whole Decay
  Pass, with weight 0.90.
\<close>

theorem decay_month_old_node:
  assumes "senseWeight a = 1" and "decayRate a = 0.05"
    and "detectedPierwiastki a = None \<or> detectedPierwiastki a = Some []"
    and "amygdalaActivationLevel a = None" and "connections a = []" and "totalActivations a = 0"
    and "now - lastAccessTime a > 30 * 24 * 60 * 60 * 1000"
  shows "applyElementBasedDecay a 0.05 = 0.05 \<and>
         applyAdaptiveDecay a 0.05 now = 0.05 * 2.0 \<and>
         applyEmotionalProtection a (0.05 * 2.0) = 0.05 * 2.0 \<and>
         applyTemporalBonus a (0.05 * 2.0) now = 0.05 * 2.0 \<and>
         applyConnectionProtection a (0.05 * 2.0) = 0.05 * 2.0 \<and>
         senseWeight (fst (processAtomDecay (config new_DecayScheduler) a now)) = 1.0 - 1.0 * (0.05 * 2.0) \<and>
         senseWeight (fst (processAtomDecay (config new_DecayScheduler) a now)) = 0.90 \<and>
         (keyed (atoms g) \<and> getAtom g k = Some a \<longrightarrow>
            (\<exists>b. getAtom (snd (applyDecay new_DecayScheduler g now)) k = Some b \<and> senseWeight b = 0.90))"
proof -
  note p = month_old_decay [OF assms]
  have mods: "applyElementBasedDecay a 0.05 = 0.05 \<and>
         applyAdaptiveDecay a 0.05 now = 0.05 * 2.0 \<and>
         applyEmotionalProtection a (0.05 * 2.0) = 0.05 * 2.0 \<and>
         applyTemporalBonus a (0.05 * 2.0) now = 0.05 * 2.0 \<and>
         applyConnectionProtection a (0.05 * 2.0) = 0.05 * 2.0"
    using assms by (auto simp: decay_defs Let_def)
  have w: "senseWeight (fst (processAtomDecay (config new_DecayScheduler) a now)) = 0.90"
    by (simp add: p)
  have "\<exists>b. getAtom (snd (applyDecay new_DecayScheduler g now)) k = Some b \<and> senseWeight b = 0.90"
    if k: "keyed (atoms g)" and ga: "getAtom g k = Some a"
  proof -
    let ?cfg = "config new_DecayScheduler"
    have mem: "(k, a) \<in> set (atoms g)" using k ga by (simp add: keyed_getAtom)
    have nr: "\<not> markedRemove ?cfg now a" by (simp add: markedRemove_def p)
    have nc: "\<not> markedConsolidate ?cfg now a" by (simp add: markedConsolidate_def p)
    have dw: "senseWeight (decayed ?cfg now a) = 0.9" by (simp add: decayed_def p)
    then have "\<not> (senseWeight (decayed ?cfg now a) < 0.1 \<and> totalActivations a < 2)" by simp
    from applyDecay_kept [OF k mem nr this] obtain b where
      b: "(k, b) \<in> set (atoms (snd (applyDecay new_DecayScheduler g now)))"
         "sameCore (outcome ?cfg now a) b" by blast
    have "getAtom (snd (applyDecay new_DecayScheduler g now)) k = Some b"
      using b(1) keyed_applyDecay [OF k] by (simp add: keyed_getAtom)
    moreover have "senseWeight b = 0.9"
      using sameCore_fields(1) [OF b(2)] dw by (simp add: outcome_fields)
    ultimately show ?thesis by auto
  qed
  with mods w show ?thesis by simp
qed

lemma keyed_exampleGraph: "keyed (atoms exampleGraph)"
  by (simp add: atoms_exampleGraph keyed_def exampleAtomA_def exampleAtomB_def new_SenseAtom_def)

theorem decay_month_old_node_witness:
  "senseWeight exampleAtomA = 1 \<and> decayRate exampleAtomA = 0.05 \<and>
   detectedPierwiastki exampleAtomA = Some [] \<and> amygdalaActivationLevel exampleAtomA = None \<and>
   connections exampleAtomA = [] \<and> totalActivations exampleAtomA = 0 \<and>
   (2678400000::int) - lastAccessTime exampleAtomA > 30 * 24 * 60 * 60 * 1000 \<and>
   keyed (atoms exampleGraph) \<and> getAtom exampleGraph ''a'' = Some exampleAtomA \<and>
   senseWeight (fst (processAtomDecay (config new_DecayScheduler) exampleAtomA 2678400000)) = 0.90 \<and>
   (\<exists>b. getAtom (snd (applyDecay new_DecayScheduler exampleGraph 2678400000)) ''a'' = Some b \<and>
        senseWeight b = 0.90)"
proof -
  have h: "senseWeight exampleAtomA = 1" "decayRate exampleAtomA = 0.05"
    "detectedPierwiastki exampleAtomA = None \<or> detectedPierwiastki exampleAtomA = Some []"
    "amygdalaActivationLevel exampleAtomA = None" "connections exampleAtomA = []"
    "totalActivations exampleAtomA = 0"
    "(2678400000::int) - lastAccessTime exampleAtomA > 30 * 24 * 60 * 60 * 1000"
    by (simp_all add: exampleAtomA_def new_SenseAtom_def)
  have d: "detectedPierwiastki exampleAtomA = Some []"
    by (simp add: exampleAtomA_def new_SenseAtom_def)
  from decay_month_old_node [OF h, of exampleGraph "''a''"] h d keyed_exampleGraph getAtom_exampleGraph(1)
  show ?thesis by simp
qed

lemma atoms_emotionalGraph: "atoms emotionalGraph = [(''p'', emotionalAtom)]"
  by (simp add: emotionalGraph_def addAtom_def new_RelationalGraph_def Map_set_def
        emotionalAtom_def new_SenseAtom_def)

lemma emotional_marked: "markedConsolidate (config new_DecayScheduler) 5 emotionalAtom"
  by (simp add: markedConsolidate_def emotionalAtom_def new_SenseAtom_def decay_defs Let_def)


lemma applyDecay_single:
  assumes "atoms g = [(k, a)]" and "atomId a = k" and "markedConsolidate (config sch) now a"
  shows "atoms (snd (applyDecay sch g now)) = [(k, consolidateAtom (decayed (config sch) now a) now)]"
proof -
  have r: "\<not> shouldRemove (snd (processAtomDecay (config sch) a now))"
    and c: "shouldConsolidate_result (snd (processAtomDecay (config sch) a now))"
    using assms(3) by (simp_all add: markedConsolidate_def)
  have res: "decayAll (config sch) (atoms g) now = [(k, processAtomDecay (config sch) a now)]"
    by (simp add: decayAll_def assms(1))
  have rm: "atomsToRemove (decayAll (config sch) (atoms g) now) = []"
    using r by (simp add: res atomsToRemove_def case_prod_unfold)
  have cn: "atomsToConsolidate (decayAll (config sch) (atoms g) now) = [k]"
    using r c assms(2) by (simp add: res atomsToConsolidate_def case_prod_unfold)
  show ?thesis
    unfolding snd_applyDecay Let_def rm cn
    by (simp add: removeMarked_def consolidateMarked_def getAtom_def Map_get_def assms(1) decayed_def)
qed

lemma decayed_emotional:
  "decayed (config new_DecayScheduler) 5 emotionalAtom = emotionalAtom\<lparr>senseWeight := 0.99625\<rparr>"
  by (simp add: decayed_def emotionalAtom_def new_SenseAtom_def decay_defs Let_def)

lemma atoms_afterFirstPass:
  "atoms afterFirstPass = [(''p'', consolidateAtom (emotionalAtom\<lparr>senseWeight := 0.99625\<rparr>) 5)]"
  unfolding afterFirstPass_def
  using applyDecay_single [OF atoms_emotionalGraph _ emotional_marked]
  by (simp add: decayed_emotional) (simp add: emotionalAtom_def new_SenseAtom_def)

lemma second_marked:
  "markedConsolidate (config new_DecayScheduler) 1000
     (consolidateAtom (emotionalAtom\<lparr>senseWeight := 0.99625\<rparr>) 5)"
  by (simp add: markedConsolidate_def consolidateAtom_def emotionalAtom_def new_SenseAtom_def
        decay_defs Let_def)

lemma atoms_afterSecondPass:
  "atoms afterSecondPass =
     [(''p'', consolidateAtom (decayed (config new_DecayScheduler) 1000
                (consolidateAtom (emotionalAtom\<lparr>senseWeight := 0.99625\<rparr>) 5)) 1000)]"
  unfolding afterSecondPass_def
  using applyDecay_single [OF atoms_afterFirstPass _ second_marked]
  by (simp add: consolidateAtom_def emotionalAtom_def new_SenseAtom_def)


section \<open>Properties of export and import\<close>

lemma update_fresh: "k \<notin> fst ` set xs \<Longrightarrow> AList.update k v xs = xs @ [(k, v)]"
  by (induction xs) auto

lemma foldl_update_fresh:
  "distinct (map fst ys) \<Longrightarrow> fst ` set ys \<inter> fst ` set zs = {} \<Longrightarrow>
     foldl (\<lambda>m (k, v). Map_set m k v) zs ys = zs @ ys"
proof (induction ys arbitrary: zs)
  case Nil
  then show ?case by simp
next
  case (Cons y ys)
  obtain k v where y: "y = (k, v)" by (cases y)
  have fresh: "k \<notin> fst ` set zs" using Cons.prems(2) y by auto
  have "foldl (\<lambda>m (k, v). Map_set m k v) zs (y # ys) =
        foldl (\<lambda>m (k, v). Map_set m k v) (zs @ [(k, v)]) ys"
    by (simp add: y Map_set_def update_fresh [OF fresh])
  also have "\<dots> = (zs @ [(k, v)]) @ ys"
    using Cons.prems y by (intro Cons.IH) auto
  finally show ?case by (simp add: y)
qed

lemma new_Map_distinct: "distinct (map fst entries) \<Longrightarrow> new_Map entries = entries"
  using foldl_update_fresh [of entries "[]"] by (simp add: new_Map_def)

lemma atoms_addAtom [simp]: "atoms (addAtom g a now) = Map_set (atoms g) (atomId a) a"
  by (simp add: addAtom_def)

lemma importAtom_fields [simp]:
  "atomId (importAtom d now) = j_id d"
  "senseWeight (importAtom d now) = j_senseWeight d"
  "connections (importAtom d now) = new_Map (j_connections d)"
  "decayRate (importAtom d now) = 0.05"
  "consolidationTime (importAtom d now) = None"
  "createdAt (importAtom d now) = now"
  by (simp_all add: importAtom_def new_SenseAtom_def Let_def)

lemma atoms_import_loop:
  "atoms (foldl (\<lambda>g atomData. addAtom g (importAtom atomData now) now) g0 ds) =
     foldl (\<lambda>m (k, v). Map_set m k v) (atoms g0) (map (\<lambda>d. (j_id d, importAtom d now)) ds)"
  by (induction ds arbitrary: g0) simp_all

lemma withoutClusters_map_entry:
  "map (\<lambda>(k, a). (k, withoutClusters a)) (AList.map_entry i (\<lambda>a. a\<lparr>clusters := clusters a @ [n]\<rparr>) xs) =
   map (\<lambda>(k, a). (k, withoutClusters a)) xs"
  by (induction xs) (auto simp: withoutClusters_def)

lemma withoutClusters_createCluster:
  "map (\<lambda>(k, a). (k, withoutClusters a)) (atoms (createCluster g name ids)) =
   map (\<lambda>(k, a). (k, withoutClusters a)) (atoms g)"
proof -
  have *: "map (\<lambda>(k, a). (k, withoutClusters a))
          (atoms (foldl (\<lambda>h ident. h\<lparr>atoms := AList.map_entry ident (\<lambda>a. a\<lparr>clusters := clusters a @ [name]\<rparr>) (atoms h)\<rparr>) h0 ids)) =
        map (\<lambda>(k, a). (k, withoutClusters a)) (atoms h0)" for h0
    by (induction ids arbitrary: h0) (simp_all add: withoutClusters_map_entry)
  show ?thesis unfolding createCluster_def Let_def by (simp only: *) simp
qed

lemma withoutClusters_cluster_loop:
  "map (\<lambda>(k, a). (k, withoutClusters a))
     (atoms (foldl (\<lambda>g clusterData. createCluster g (c_name clusterData) (c_atomIds clusterData)) g0 cs)) =
   map (\<lambda>(k, a). (k, withoutClusters a)) (atoms g0)"
  by (induction cs arbitrary: g0) (simp_all add: withoutClusters_createCluster)

lemma withoutClusters_fromJSON:
  "map (\<lambda>(k, a). (k, withoutClusters a)) (atoms (fromJSON data now)) =
   map (\<lambda>(k, a). (k, withoutClusters a))
     (foldl (\<lambda>m (k, v). Map_set m k v) [] (map (\<lambda>d. (j_id d, importAtom d now)) (j_atoms data)))"
  by (simp add: fromJSON_def Let_def withoutClusters_cluster_loop atoms_import_loop new_RelationalGraph_def)

lemma withoutClusters_fields:
  "senseWeight (withoutClusters a) = senseWeight a"
  "connections (withoutClusters a) = connections a"
  "decayRate (withoutClusters a) = decayRate a"
  "consolidationTime (withoutClusters a) = consolidationTime a"
  "createdAt (withoutClusters a) = createdAt a"
  "atomId (withoutClusters a) = atomId a"
  by (simp_all add: withoutClusters_def)

lemma set_foldl_Map_set:
  "set (foldl (\<lambda>m (k, v). Map_set m k v) zs ys) \<subseteq> set zs \<union> set ys"
proof (induction ys arbitrary: zs)
  case Nil
  then show ?case by simp
next
  case (Cons y ys)
  obtain k v where y: "y = (k, v)" by (cases y)
  have "set (AList.update k v zs) \<subseteq> set zs \<union> {(k, v)}"
    by (induction zs) auto
  with Cons.IH [of "AList.update k v zs"] show ?case
    by (auto simp: y Map_set_def)
qed

lemma imported_atom_defaults:
  assumes "(k, a) \<in> set (atoms (fromJSON data now))"
  shows "decayRate a = 0.05 \<and> consolidationTime a = None \<and> createdAt a = now"
proof -
  let ?pairs = "map (\<lambda>d. (j_id d, importAtom d now)) (j_atoms data)"
  let ?imported = "foldl (\<lambda>m (k, v). Map_set m k v) [] ?pairs"
  from assms have "(k, withoutClusters a) \<in> set (map (\<lambda>(k, a). (k, withoutClusters a)) (atoms (fromJSON data now)))"
    by force
  then have "(k, withoutClusters a) \<in> set (map (\<lambda>(k, a). (k, withoutClusters a)) ?imported)"
    by (simp only: withoutClusters_fromJSON)
  then obtain a0 where a0: "(k, a0) \<in> set ?imported" "withoutClusters a = withoutClusters a0"
    by auto
  from a0(1) set_foldl_Map_set [of "[]" ?pairs] have "(k, a0) \<in> set ?pairs" by auto
  then obtain d where "a0 = importAtom d now" by auto
  then have "decayRate a0 = 0.05 \<and> consolidationTime a0 = None \<and> createdAt a0 = now" by simp
  moreover have "decayRate a = decayRate a0" "consolidationTime a = consolidationTime a0"
      "createdAt a = createdAt a0"
    using withoutClusters_fields(3,4,5) [of a] withoutClusters_fields(3,4,5) [of a0] a0(2) by simp_all
  ultimately show ?thesis by simp
qed

text \<open>
  Claim C10. The per-atom export has no decay coefficient, consolidation timestamp or
  creation time, and the import sets none of them: every atom of the graph that \<open>fromJSON\<close>
  builds from the export of a graph has the constructor's decay coefficient 0.05, no
  consolidation timestamp, and the time of the import as its creation time, whatever the
  exported atoms held (the same holds for the import of any data).
\<close>

theorem import_resets_unexported_fields:
  "\<forall>(k, a) \<in> set (atoms (fromJSON (toJSON g) now)).
      decayRate a = 0.05 \<and> consolidationTime a = None \<and> createdAt a = now"
  using imported_atom_defaults by blast

lemma roundtrip_atoms:
  assumes "wellFormed g"
  shows "map (\<lambda>(k, a). (k, senseWeight a, connections a)) (atoms (fromJSON (toJSON g) now)) =
         map (\<lambda>(k, a). (k, senseWeight a, connections a)) (atoms g)"
proof -
  let ?P = "\<lambda>a. (senseWeight a, connections a)"
  let ?pairs = "map (\<lambda>d. (j_id d, importAtom d now)) (j_atoms (toJSON g))"
  from assms have k: "keyed (atoms g)"
    and dc: "\<And>k a. (k, a) \<in> set (atoms g) \<Longrightarrow> distinct (map fst (connections a))"
    by (auto simp: wellFormed_def list_all_iff)
  have pairs: "?pairs = map (\<lambda>(k, a). (k, importAtom (toJSON_atom a) now)) (atoms g)"
    using k by (auto simp: toJSON_def keyed_def list_all_iff toJSON_atom_def)
  have "map fst ?pairs = map fst (atoms g)"
    by (simp add: pairs comp_def case_prod_unfold)
  then have "distinct (map fst ?pairs)" using k by (simp add: keyed_def)
  then have imp: "foldl (\<lambda>m (k, v). Map_set m k v) [] ?pairs = ?pairs"
    using foldl_update_fresh [of ?pairs "[]"] by simp
  have P: "?P a = ?P (withoutClusters a)" for a
    by (simp add: withoutClusters_fields)
  have "map (\<lambda>(k, a). (k, ?P a)) (atoms (fromJSON (toJSON g) now)) =
        map (\<lambda>(k, a). (k, ?P (withoutClusters a))) (atoms (fromJSON (toJSON g) now))"
    by (simp add: withoutClusters_fields)
  also have "\<dots> = map (\<lambda>(k, a). (k, ?P a)) (map (\<lambda>(k, a). (k, withoutClusters a)) (atoms (fromJSON (toJSON g) now)))"
    by (simp add: comp_def case_prod_unfold)
  also have "\<dots> = map (\<lambda>(k, a). (k, ?P a)) (map (\<lambda>(k, a). (k, withoutClusters a)) ?pairs)"
    by (simp only: withoutClusters_fromJSON imp)
  also have "\<dots> = map (\<lambda>(k, a). (k, ?P (importAtom (toJSON_atom a) now))) (atoms g)"
    by (simp add: pairs comp_def case_prod_unfold withoutClusters_fields)
  also have "\<dots> = map (\<lambda>(k, a). (k, ?P a)) (atoms g)"
    using dc by (auto simp: toJSON_atom_def new_Map_distinct)
  finally show ?thesis .
qed

lemma map_of_projection:
  assumes "map (\<lambda>(k, a). (k, P a)) xs = map (\<lambda>(k, a). (k, P a)) ys"
  shows "map_option P (map_of xs k) = map_option P (map_of ys k)"
  using map_of_map_snd [of P xs k] map_of_map_snd [of P ys k] assms by simp

text \<open>
  Claim C4. For a graph as the class builds it (each atom under its own identity, each map
  with each key once), \<open>fromJSON (toJSON g)\<close> has as many atoms as \<open>g\<close>, the same
  identities in the same order, and for every identity the same weight and the same adjacency
  map (the same edges with the same strengths, kinds and creation times).
\<close>

theorem export_import_roundtrip:
  assumes "wellFormed g"
  shows "size_graph (fromJSON (toJSON g) now) = size_graph g \<and>
         map fst (atoms (fromJSON (toJSON g) now)) = map fst (atoms g) \<and>
         (\<forall>k. map_option senseWeight (getAtom (fromJSON (toJSON g) now) k) =
               map_option senseWeight (getAtom g k)) \<and>
         (\<forall>k. map_option connections (getAtom (fromJSON (toJSON g) now) k) =
               map_option connections (getAtom g k))"
proof -
  note r = roundtrip_atoms [OF assms, of now]
  have len: "size_graph (fromJSON (toJSON g) now) = size_graph g"
    using arg_cong [OF r, of length] by (simp add: size_graph_def)
  have keys: "map fst (atoms (fromJSON (toJSON g) now)) = map fst (atoms g)"
    using arg_cong [OF r, of "map fst"] by (simp add: comp_def case_prod_unfold)
  have both: "map_option (\<lambda>a. (senseWeight a, connections a)) (getAtom (fromJSON (toJSON g) now) k) =
              map_option (\<lambda>a. (senseWeight a, connections a)) (getAtom g k)" for k
    unfolding getAtom_def Map_get_def by (rule map_of_projection [OF r])
  have w: "map_option senseWeight (getAtom (fromJSON (toJSON g) now) k) = map_option senseWeight (getAtom g k)" for k
    using arg_cong [OF both [of k], of "map_option fst"] by (simp add: option.map_comp comp_def)
  have c: "map_option connections (getAtom (fromJSON (toJSON g) now) k) = map_option connections (getAtom g k)" for k
    using arg_cong [OF both [of k], of "map_option snd"] by (simp add: option.map_comp comp_def)
  from len keys w c show ?thesis by simp
qed

lemma atoms_connectedGraph:
  "atoms connectedGraph =
     [(''a'', exampleAtomA\<lparr>connections := [(''b'', \<lparr>strength = 0.7, conn_type = EMOTIONAL, conn_createdAt = 5\<rparr>)]\<rparr>),
      (''b'', exampleAtomB\<lparr>connections := [(''a'', \<lparr>strength = 0.7, conn_type = EMOTIONAL, conn_createdAt = 5\<rparr>)]\<rparr>)]"
  by (simp add: connectedGraph_def createConnection_def Map_get_def atoms_exampleGraph Let_def
        addConnection_def Map_set_def exampleAtomA_def exampleAtomB_def new_SenseAtom_def)

lemma wellFormed_connectedGraph: "wellFormed connectedGraph"
  by (simp add: wellFormed_def keyed_def atoms_connectedGraph exampleAtomA_def exampleAtomB_def
        new_SenseAtom_def)

theorem export_import_roundtrip_witness:
  "wellFormed connectedGraph \<and> size_graph connectedGraph = 2 \<and>
   size_graph (fromJSON (toJSON connectedGraph) 9) = 2 \<and>
   map fst (atoms (fromJSON (toJSON connectedGraph) 9)) = [''a'', ''b''] \<and>
   map_option senseWeight (getAtom (fromJSON (toJSON connectedGraph) 9) ''b'') = Some 0.5 \<and>
   map_option connections (getAtom (fromJSON (toJSON connectedGraph) 9) ''b'') =
     Some [(''a'', \<lparr>strength = 0.7, conn_type = EMOTIONAL, conn_createdAt = 5\<rparr>)]"
proof -
  have s: "size_graph connectedGraph = 2" "map fst (atoms connectedGraph) = [''a'', ''b'']"
    by (simp_all add: size_graph_def atoms_connectedGraph)
  have b: "map_option senseWeight (getAtom connectedGraph ''b'') = Some 0.5"
    "map_option connections (getAtom connectedGraph ''b'') =
       Some [(''a'', \<lparr>strength = 0.7, conn_type = EMOTIONAL, conn_createdAt = 5\<rparr>)]"
    by (simp_all add: getAtom_def Map_get_def atoms_connectedGraph exampleAtomB_def new_SenseAtom_def)
  from export_import_roundtrip [OF wellFormed_connectedGraph, of 9] s b wellFormed_connectedGraph
  show ?thesis by simp
qed

lemma wellFormed_afterFirstPass: "wellFormed afterFirstPass"
  by (simp add: wellFormed_def keyed_def atoms_afterFirstPass consolidateAtom_def emotionalAtom_def
        new_SenseAtom_def)

theorem import_resets_unexported_fields_witness:
  "map_option decayRate (getAtom afterFirstPass ''p'') = Some 0.025 \<and>
   map_option consolidationTime (getAtom afterFirstPass ''p'') = Some (Some 5) \<and>
   map_option createdAt (getAtom afterFirstPass ''p'') = Some 0 \<and>
   map fst (atoms (fromJSON (toJSON afterFirstPass) 2000)) = [''p''] \<and>
   list_all (\<lambda>(k, a). decayRate a = 0.05 \<and> consolidationTime a = None \<and> createdAt a = 2000)
     (atoms (fromJSON (toJSON afterFirstPass) 2000))"
proof -
  have before: "map_option decayRate (getAtom afterFirstPass ''p'') = Some 0.025"
    "map_option consolidationTime (getAtom afterFirstPass ''p'') = Some (Some 5)"
    "map_option createdAt (getAtom afterFirstPass ''p'') = Some 0"
    by (simp_all add: getAtom_def Map_get_def atoms_afterFirstPass consolidateAtom_def
          emotionalAtom_def new_SenseAtom_def)
  have keys: "map fst (atoms (fromJSON (toJSON afterFirstPass) 2000)) = [''p'']"
    using arg_cong [OF roundtrip_atoms [OF wellFormed_afterFirstPass, of 2000], of "map fst"]
    by (simp add: comp_def case_prod_unfold atoms_afterFirstPass)
  from import_resets_unexported_fields [of afterFirstPass 2000] before keys
  show ?thesis by (simp add: list_all_iff)
qed

section \<open>Properties of the Excitation Pass\<close>

lemma startsWith_iff: "startsWith s kw \<longleftrightarrow> (\<exists>t. s = kw @ t)"
  by (induction s kw rule: startsWith.induct) auto

lemma includes_js_iff: "includes_js s kw \<longleftrightarrow> (\<exists>p t. s = p @ kw @ t)"
proof (induction s)
  case Nil
  then show ?case by auto
next
  case (Cons c cs)
  show ?case
  proof
    assume "includes_js (c # cs) kw"
    then consider "startsWith (c # cs) kw" | "includes_js cs kw" by auto
    then show "\<exists>p t. c # cs = p @ kw @ t"
    proof cases
      case 1
      then obtain t where "c # cs = kw @ t" by (auto simp: startsWith_iff)
      then have "c # cs = [] @ kw @ t" by simp
      then show ?thesis by blast
    next
      case 2
      then obtain p t where "cs = p @ kw @ t" using Cons.IH by blast
      then have "c # cs = (c # p) @ kw @ t" by simp
      then show ?thesis by blast
    qed
  next
    assume "\<exists>p t. c # cs = p @ kw @ t"
    then obtain p t where pt: "c # cs = p @ kw @ t" by blast
    show "includes_js (c # cs) kw"
    proof (cases p)
      case Nil
      with pt have "startsWith (c # cs) kw" by (auto simp: startsWith_iff)
      then show ?thesis by simp
    next
      case (Cons x p')
      with pt have "cs = p' @ kw @ t" by simp
      then have "includes_js cs kw" using Cons.IH by blast
      then show ?thesis by simp
    qed
  qed
qed

lemma love_detected:
  "includes_js (toLowerCase query) milosc \<Longrightarrow>
     ''ALGORYTM_ZAKOCHANIA'' \<in> set (detectPierwiastkiInQuery toLowerCase query)"
  by (simp add: detectPierwiastkiInQuery_def keywordMap_def Let_def milosc_def)

lemma exciteAtom_cases:
  "fst (exciteAtom det a now) =
     (if set (tagsOf a) \<inter> set det \<noteq> {}
      then a\<lparr>senseWeight := senseWeight a * (1 + real (overlapCount det a) / real (length det)),
             lastAccessTime := now\<rparr>
      else a)"
proof -
  have "filter (\<lambda>p. p \<in> set det) ps \<noteq> [] \<longleftrightarrow> set ps \<inter> set det \<noteq> {}" for ps
    by (auto simp: filter_empty_conv)
  then show ?thesis
    by (auto simp: exciteAtom_def tagsOf_def overlapCount_def Let_def split: option.splits)
qed

lemma atoms_processContextExcitation:
  assumes "query \<noteq> []"
  shows "atoms (fst (processContextExcitation toLowerCase g (Some query) now active)) =
     map (\<lambda>(k, a). (k, fst (exciteAtom (detectPierwiastkiInQuery toLowerCase query) a now))) (atoms g)"
  using assms by (simp add: processContextExcitation_def Let_def comp_def case_prod_unfold)


lemma loveQuery_lower: "toLowerCase_latin loveQuery = milosc"
  by (simp add: toLowerCase_latin_def loveQuery_def milosc_def units_def lowerUnit_def)

lemma loveQuery_detected:
  "detectPierwiastkiInQuery toLowerCase_latin loveQuery = [''ALGORYTM_ZAKOCHANIA'']"
  by (simp add: detectPierwiastkiInQuery_def loveQuery_lower Let_def keywordMap_def milosc_def units_def)


section \<open>Properties of optimize\<close>

lemma foldl_delete_filter:
  "foldl (\<lambda>m t. AList.delete t m) m ts = filter (\<lambda>(k, v). k \<notin> set ts) m"
proof (induction ts arbitrary: m)
  case Nil
  then show ?case by simp
next
  case (Cons t ts)
  have "foldl (\<lambda>m t. AList.delete t m) m (t # ts) = filter (\<lambda>(k, v). k \<notin> set ts) (AList.delete t m)"
    by (simp add: Cons.IH)
  also have "\<dots> = filter (\<lambda>(k, v). k \<notin> set (t # ts)) m"
    by (auto simp: AList.delete_eq intro: filter_cong)
  finally show ?case .
qed

lemma connections_foldl_removeConnection:
  "connections (foldl (\<lambda>a targetId. fst (removeConnection a targetId)) a ts) =
     foldl (\<lambda>m t. AList.delete t m) (connections a) ts"
  by (induction ts arbitrary: a) (simp_all add: removeConnection_def Map_delete_def)

lemma foldl_removeConnection_eq:
  "foldl (\<lambda>a targetId. fst (removeConnection a targetId)) a ts =
     a\<lparr>connections := foldl (\<lambda>m t. AList.delete t m) (connections a) ts\<rparr>"
  by (induction ts arbitrary: a) (simp_all add: removeConnection_def Map_delete_def)

lemma removeWeakConnections_eq:
  assumes "distinct (map fst (connections a))"
  shows "removeWeakConnections a = a\<lparr>connections := strongConnections a\<rparr>"
proof -
  let ?weak = "\<lambda>(targetId, conn). strength conn < (0.1::real)"
  have "filter (\<lambda>(k, v). k \<notin> set (map fst (filter ?weak (connections a)))) (connections a) =
        filter (\<lambda>(targetId, conn). \<not> strength conn < 0.1) (connections a)"
  proof (rule filter_cong [OF refl])
    fix x assume x: "x \<in> set (connections a)"
    obtain k c where kc: "x = (k, c)" by (cases x)
    have "k \<in> set (map fst (filter ?weak (connections a))) \<longleftrightarrow> strength c < 0.1"
    proof
      assume "k \<in> set (map fst (filter ?weak (connections a)))"
      then obtain c' where c': "(k, c') \<in> set (connections a)" "strength c' < 0.1" by auto
      from assms c'(1) x kc have "c' = c" by (metis eq_key_imp_eq_value)
      with c'(2) show "strength c < 0.1" by simp
    next
      assume "strength c < 0.1"
      with x kc show "k \<in> set (map fst (filter ?weak (connections a)))" by force
    qed
    then show "(case x of (k, v) \<Rightarrow> k \<notin> set (map fst (filter ?weak (connections a)))) =
               (case x of (targetId, conn) \<Rightarrow> \<not> strength conn < 0.1)"
      by (simp add: kc)
  qed
  then show ?thesis
    by (simp add: removeWeakConnections_def weakConnections_def foldl_removeConnection_eq
          foldl_delete_filter strongConnections_def)
qed

lemma removeWeakConnections_strong:
  assumes "weakConnections a = []"
  shows "removeWeakConnections a = a"
  using assms by (simp add: removeWeakConnections_def)

lemma removeAtom_unreferenced:
  assumes "\<And>k a. (k, a) \<in> set (atoms g) \<Longrightarrow> X \<notin> fst ` set (connections a)"
  shows "atoms (fst (removeAtom g X now)) = filter (\<lambda>(k, a). k \<noteq> X) (atoms g)"
proof (cases "Map_has (atoms g) X")
  case True
  have "map (\<lambda>(k, a). (k, fst (removeConnection a X))) (atoms g) = atoms g"
    by (rule map_idI) (auto simp: removeConnection_def Map_delete_def dest!: assms)
  with True show ?thesis
    by (auto simp: removeAtom_atoms Map_delete_def AList.delete_eq intro: filter_cong)
next
  case False
  then have "X \<notin> fst ` set (atoms g)"
    by (simp add: Map_has_def map_of_eq_None_iff)
  then have "k \<noteq> X" if "(k, a) \<in> set (atoms g)" for k a
    using that by force
  then have "filter (\<lambda>(k, a). k \<noteq> X) (atoms g) = atoms g"
    by (auto simp: filter_id_conv)
  with False show ?thesis by (simp add: removeAtom_atoms)
qed

lemma removeAll_atoms_unreferenced:
  assumes "\<And>k a. (k, a) \<in> set (atoms g) \<Longrightarrow> set ids \<inter> fst ` set (connections a) = {}"
  shows "atoms (removeAll_atoms g ids now) = filter (\<lambda>(k, a). k \<notin> set ids) (atoms g)"
  using assms
proof (induction ids arbitrary: g)
  case Nil
  then show ?case by (simp add: removeAll_atoms_def)
next
  case (Cons i ids)
  let ?g1 = "fst (removeAtom g i now)"
  have a1: "atoms ?g1 = filter (\<lambda>(k, a). k \<noteq> i) (atoms g)"
  proof (rule removeAtom_unreferenced)
    fix k a assume "(k, a) \<in> set (atoms g)"
    from Cons.prems [OF this] show "i \<notin> fst ` set (connections a)" by auto
  qed
  have "atoms (removeAll_atoms ?g1 ids now) = filter (\<lambda>(k, a). k \<notin> set ids) (atoms ?g1)"
  proof (rule Cons.IH)
    fix k a assume "(k, a) \<in> set (atoms ?g1)"
    then have "(k, a) \<in> set (atoms g)" by (simp add: a1)
    from Cons.prems [OF this] show "set ids \<inter> fst ` set (connections a) = {}" by auto
  qed
  then show ?case
    by (auto simp: removeAll_atoms_def a1 intro: filter_cong)
qed

lemma optimize_fixpoint:
  assumes "\<And>k a. (k, a) \<in> set (atoms g) \<Longrightarrow> weakConnections a = [] \<and> \<not> isolatedLowWeight a"
  shows "optimize g now = (updateStatistics g now, 0, 0)"
proof -
  have p: "map (\<lambda>(k, atom). (k, removeWeakConnections atom)) (atoms g) = atoms g"
    by (rule map_idI) (auto simp: removeWeakConnections_strong dest: assms)
  have f: "filter (\<lambda>(k, atom). isolatedLowWeight atom) (atoms g) = []"
    by (auto simp: filter_empty_conv dest: assms)
  have z: "sum_list (map (\<lambda>(k, atom). length (weakConnections atom)) (atoms g)) = 0"
    by (auto dest: assms)
  show ?thesis
    by (simp add: optimize_def Let_def p f z)
qed

lemma symmetric_mirror:
  assumes "symmetricGraph g" and "(k, a) \<in> set (atoms g)" and "(t, c) \<in> set (connections a)"
  shows "\<exists>b c'. map_of (atoms g) t = Some b \<and> map_of (connections b) k = Some c' \<and>
           strength c' = strength c"
proof -
  from assms have
    "case Map_get (atoms g) t of
       None \<Rightarrow> False
     | Some b \<Rightarrow> (case Map_get (connections b) k of None \<Rightarrow> False | Some c' \<Rightarrow> strength c' = strength c)"
    unfolding symmetricGraph_def list_all_iff by fastforce
  then show ?thesis by (auto simp: Map_get_def split: option.splits)
qed

lemma optimize_symmetric:
  assumes "wellFormed g" and "symmetricGraph g"
  shows "atoms (fst (optimize g now)) =
     filter (\<lambda>(k, a). \<not> isolatedLowWeight a)
       (map (\<lambda>(k, a). (k, a\<lparr>connections := strongConnections a\<rparr>)) (atoms g))"
proof -
  let ?pr = "\<lambda>a. a\<lparr>connections := strongConnections a\<rparr>"
  let ?ps = "map (\<lambda>(k, a). (k, ?pr a)) (atoms g)"
  let ?ids = "map (\<lambda>(k, atom). atomId atom) (filter (\<lambda>(k, atom). isolatedLowWeight atom) ?ps)"
  from assms(1) have k: "keyed (atoms g)"
    and dc: "\<And>k a. (k, a) \<in> set (atoms g) \<Longrightarrow> distinct (map fst (connections a))"
    by (auto simp: wellFormed_def list_all_iff)
  have ps: "map (\<lambda>(k, atom). (k, removeWeakConnections atom)) (atoms g) = ?ps"
    by (rule map_cong [OF refl]) (auto simp: removeWeakConnections_eq dest: dc)
  have kp: "keyed ?ps"
    by (rule keyed_map [OF k]) simp
  have ids: "?ids = map fst (filter (\<lambda>(k, atom). isolatedLowWeight atom) ?ps)"
    by (rule keyed_atomIds [OF kp])
  have unref: "set ?ids \<inter> fst ` set (connections a') = {}" if m: "(k, a') \<in> set ?ps" for k a'
  proof -
    from m obtain a where a: "(k, a) \<in> set (atoms g)" "a' = ?pr a" by auto
    { fix t assume t: "t \<in> fst ` set (connections a')"
      then obtain c where c: "(t, c) \<in> set (connections a)" "\<not> strength c < 0.1"
        using a(2) by (auto simp: strongConnections_def)
      from symmetric_mirror [OF assms(2) a(1) c(1)] obtain b c' where
        b: "map_of (atoms g) t = Some b" "map_of (connections b) k = Some c'" "strength c' = strength c"
        by blast
      from b(1) have tb: "(t, b) \<in> set (atoms g)" by (rule map_of_SomeD)
      from b(2) have "(k, c') \<in> set (connections b)" by (rule map_of_SomeD)
      with b(3) c(2) have "(k, c') \<in> set (strongConnections b)"
        by (simp add: strongConnections_def)
      then have "\<not> isolatedLowWeight (?pr b)"
        by (auto simp: isolatedLowWeight_def)
      moreover have "(t, ?pr b) \<in> set ?ps" using tb by force
      ultimately have "t \<notin> set ?ids"
        unfolding ids using keyed_filter_mem [OF kp, of t "?pr b" isolatedLowWeight] by simp }
    then have "\<And>t. t \<in> fst ` set (connections a') \<Longrightarrow> t \<notin> set ?ids" .
    then show ?thesis by blast
  qed
  have "atoms (fst (optimize g now)) = atoms (removeAll_atoms (g\<lparr>atoms := ?ps\<rparr>) ?ids now)"
    by (simp only: atoms_optimize ps)
  also have "\<dots> = filter (\<lambda>(k, a). k \<notin> set ?ids) ?ps"
    using removeAll_atoms_unreferenced [of "g\<lparr>atoms := ?ps\<rparr>" ?ids now] unref by simp
  also have "\<dots> = filter (\<lambda>(k, a). \<not> isolatedLowWeight a) ?ps"
  proof (rule filter_cong [OF refl])
    fix x assume x: "x \<in> set ?ps"
    obtain k a' where ka: "x = (k, a')" by (cases x)
    from keyed_filter_mem [OF kp, of k a' isolatedLowWeight] x ka
    show "(case x of (k, a) \<Rightarrow> k \<notin> set ?ids) = (case x of (k, a) \<Rightarrow> \<not> isolatedLowWeight a)"
      by (simp add: ids)
  qed
  finally show ?thesis .
qed

lemma optimized_is_fixpoint:
  assumes "wellFormed g" and "symmetricGraph g"
  shows "optimize (fst (optimize g t1)) t2 = (updateStatistics (fst (optimize g t1)) t2, 0, 0)"
proof (rule optimize_fixpoint)
  fix k a assume "(k, a) \<in> set (atoms (fst (optimize g t1)))"
  then obtain a0 where a: "a = a0\<lparr>connections := strongConnections a0\<rparr>" "\<not> isolatedLowWeight a"
    unfolding optimize_symmetric [OF assms] by auto
  have "weakConnections a = []"
    by (auto simp: a(1) weakConnections_def strongConnections_def filter_empty_conv)
  with a(2) show "weakConnections a = [] \<and> \<not> isolatedLowWeight a" by simp
qed

text \<open>
  Claim C5, as amended. For a graph as the class builds it whose adjacency is symmetric, a
  second \<open>optimize\<close> right after the first removes no connection and no atom: the atoms and
  their adjacency maps, hence the node count and the total edge count, are those the first
  run left.
\<close>

theorem optimize_idempotent_symmetric:
  assumes "wellFormed g" and "symmetricGraph g"
  shows "size_graph (fst (optimize (fst (optimize g t1)) t2)) = size_graph (fst (optimize g t1)) \<and>
         totalConnections (statistics (fst (optimize (fst (optimize g t1)) t2))) =
           totalConnections (statistics (fst (optimize g t1))) \<and>
         atoms (fst (optimize (fst (optimize g t1)) t2)) = atoms (fst (optimize g t1)) \<and>
         snd (optimize (fst (optimize g t1)) t2) = (0, 0)"
proof -
  note fp = optimized_is_fixpoint [OF assms, of t1 t2]
  have at: "atoms (fst (optimize (fst (optimize g t1)) t2)) = atoms (fst (optimize g t1))"
    by (simp add: fp)
  have tc: "totalConnections (statistics (fst (optimize g t1))) =
            foldl (\<lambda>sum a. sum + real (length (connections a))) 0 (map snd (atoms (fst (optimize g t1)))) / 2"
    by (simp add: optimize_def Let_def updateStatistics_def)
  have tc2: "totalConnections (statistics (fst (optimize (fst (optimize g t1)) t2))) =
            foldl (\<lambda>sum a. sum + real (length (connections a))) 0 (map snd (atoms (fst (optimize g t1)))) / 2"
    by (simp add: fp updateStatistics_def)
  show ?thesis
    using at tc tc2 by (simp add: size_graph_def fp)
qed

lemma atoms_weakGraph:
  "atoms weakGraph =
     [(''a'', (faintAtom ''a'')\<lparr>connections := [(''b'', \<lparr>strength = 0.05, conn_type = SEMANTIC, conn_createdAt = 0\<rparr>)]\<rparr>),
      (''b'', exampleAtomB\<lparr>connections := [(''a'', \<lparr>strength = 0.05, conn_type = SEMANTIC, conn_createdAt = 0\<rparr>)]\<rparr>)]"
  by (simp add: weakGraph_def createConnection_def Map_get_def Let_def addConnection_def Map_set_def
        faintAtom_def exampleAtomB_def new_SenseAtom_def new_RelationalGraph_def)

lemma wellFormed_weakGraph: "wellFormed weakGraph"
  by (simp add: wellFormed_def keyed_def atoms_weakGraph faintAtom_def exampleAtomB_def new_SenseAtom_def)

lemma symmetric_weakGraph: "symmetricGraph weakGraph"
  by (simp add: symmetricGraph_def atoms_weakGraph Map_get_def)

theorem optimize_idempotent_symmetric_witness:
  "wellFormed weakGraph \<and> symmetricGraph weakGraph \<and> size_graph weakGraph = 2 \<and>
   map fst (atoms (fst (optimize weakGraph 1))) = [''b''] \<and>
   size_graph (fst (optimize weakGraph 1)) = 1 \<and>
   size_graph (fst (optimize (fst (optimize weakGraph 1)) 2)) = 1 \<and>
   totalConnections (statistics (fst (optimize (fst (optimize weakGraph 1)) 2))) =
     totalConnections (statistics (fst (optimize weakGraph 1))) \<and>
   snd (optimize (fst (optimize weakGraph 1)) 2) = (0, 0)"
proof -
  have a1: "map fst (atoms (fst (optimize weakGraph 1))) = [''b'']"
    unfolding optimize_symmetric [OF wellFormed_weakGraph symmetric_weakGraph]
    by (simp add: atoms_weakGraph strongConnections_def isolatedLowWeight_def faintAtom_def
          exampleAtomB_def new_SenseAtom_def)
  have s1: "size_graph (fst (optimize weakGraph 1)) = 1"
    using arg_cong [OF a1, of length] by (simp add: size_graph_def)
  have s0: "size_graph weakGraph = 2" by (simp add: size_graph_def atoms_weakGraph)
  from optimize_idempotent_symmetric [OF wellFormed_weakGraph symmetric_weakGraph, where ?t1.0 = 1 and ?t2.0 = 2]
    wellFormed_weakGraph symmetric_weakGraph a1 s1 s0
  show ?thesis by simp
qed

lemma atoms_overwrittenGraph:
  "atoms overwrittenGraph =
     [(''a'', faintAtom ''a''),
      (''b'', (faintAtom ''b'')\<lparr>connections := [(''a'', \<lparr>strength = 0.5, conn_type = SEMANTIC, conn_createdAt = 0\<rparr>)]\<rparr>)]"
  by (simp add: overwrittenGraph_def createConnection_def Map_get_def Let_def addConnection_def
        Map_set_def faintAtom_def new_SenseAtom_def new_RelationalGraph_def)

lemma atoms_optimize_overwritten:
  "atoms (fst (optimize overwrittenGraph 2)) = [(''b'', faintAtom ''b'')]"
  by (simp add: atoms_optimize atoms_overwrittenGraph removeWeakConnections_def weakConnections_def
        isolatedLowWeight_def removeAll_atoms_def removeAtom_atoms Map_has_def Map_delete_def
        removeConnection_def faintAtom_def new_SenseAtom_def)

lemma atoms_optimize_twice_overwritten:
  "atoms (fst (optimize (fst (optimize overwrittenGraph 2)) 3)) = []"
  using atoms_optimize [of "fst (optimize overwrittenGraph 2)" 3]
  by (simp add: atoms_optimize_overwritten removeWeakConnections_def weakConnections_def
        isolatedLowWeight_def removeAll_atoms_def removeAtom_atoms Map_has_def Map_delete_def
        removeConnection_def faintAtom_def new_SenseAtom_def)

theorem optimize_twice_counterexample:
  "wellFormed overwrittenGraph \<and>
   size_graph (fst (optimize overwrittenGraph 2)) = 1 \<and>
   size_graph (fst (optimize (fst (optimize overwrittenGraph 2)) 3)) = 0"
  by (simp add: size_graph_def atoms_optimize_overwritten atoms_optimize_twice_overwritten
        wellFormed_def keyed_def atoms_overwrittenGraph faintAtom_def new_SenseAtom_def)

section \<open>Well-formed graphs\<close>

text \<open>
  The empty graph is well formed, and \<open>addAtom\<close> (of an atom whose adjacency map is a
  \<open>Map\<close>), \<open>createConnection\<close> and \<open>removeAtom\<close> keep a graph well formed.
\<close>

lemma in_set_updateD:
  "(k', v') \<in> set (AList.update k v al) \<Longrightarrow> (k', v') = (k, v) \<or> (k', v') \<in> set al"
  by (induction al) (auto split: if_splits)

lemma wellFormed_new_RelationalGraph: "wellFormed (new_RelationalGraph now)"
  by (simp add: wellFormed_def keyed_def new_RelationalGraph_def)

lemma wellFormed_addAtom:
  assumes "wellFormed g" and "distinct (map fst (connections a))"
  shows "wellFormed (addAtom g a now)"
  using assms
  by (auto simp: wellFormed_def keyed_def list_all_iff Map_set_def distinct_update
        dest!: in_set_updateD)

lemma wellFormed_map_entry:
  assumes "wellFormed g" and "\<And>a. atomId (f a) = atomId a"
    and "\<And>a. distinct (map fst (connections a)) \<Longrightarrow> distinct (map fst (connections (f a)))"
  shows "wellFormed (g\<lparr>atoms := AList.map_entry i f (atoms g)\<rparr>)"
  using assms
  by (auto simp: wellFormed_def keyed_def list_all_iff dest!: in_set_map_entryD)

lemma wellFormed_createConnection:
  assumes "wellFormed g"
  shows "wellFormed (fst (createConnection g A B S K now))"
proof (cases "Map_get (atoms g) A = None \<or> Map_get (atoms g) B = None")
  case True
  then show ?thesis using assms by (auto simp: createConnection_def split: option.splits)
next
  case False
  let ?g1 = "g\<lparr>atoms := AList.map_entry A (\<lambda>a. addConnection a B S K now) (atoms g)\<rparr>"
  let ?g2 = "?g1\<lparr>atoms := AList.map_entry B (\<lambda>a. addConnection a A S K now) (atoms ?g1)\<rparr>"
  have w1: "wellFormed ?g1"
    by (rule wellFormed_map_entry [OF assms]) (simp_all add: addConnection_def Map_set_def distinct_update)
  have w2: "wellFormed ?g2"
    by (rule wellFormed_map_entry [OF w1]) (simp_all add: addConnection_def Map_set_def distinct_update)
  have "atoms (fst (createConnection g A B S K now)) = atoms ?g2"
    using False by (auto simp: createConnection_def Let_def)
  with w2 show ?thesis by (simp add: wellFormed_def)
qed

lemma wellFormed_removeAtom:
  assumes "wellFormed g"
  shows "wellFormed (fst (removeAtom g X now))"
proof -
  from assms have k: "keyed (atoms g)" by (simp add: wellFormed_def)
  have k': "keyed (atoms (fst (removeAtom g X now)))"
    using keyed_removeAll_atoms [OF k, of "[X]" now] by (simp add: removeAll_atoms_def)
  have "distinct (map fst (connections b))" if "(k, b) \<in> set (atoms (fst (removeAtom g X now)))" for k b
  proof (cases "Map_has (atoms g) X")
    case True
    with that obtain a where "(k, a) \<in> set (atoms g)" "b = fst (removeConnection a X)"
      by (auto simp: removeAtom_atoms Map_delete_def dest!: in_set_deleteD)
    with assms show ?thesis
      by (auto simp: wellFormed_def list_all_iff removeConnection_def Map_delete_def distinct_delete)
  next
    case False
    with that assms show ?thesis by (auto simp: removeAtom_atoms wellFormed_def list_all_iff)
  qed
  with k' show ?thesis by (auto simp: wellFormed_def list_all_iff)
qed

end
